theory Spec2Isabelle
  imports Main "HOL-Library.Word"
begin

unbundle bit_operations_syntax

section \<open>efiextract: the EFI zboot header and the payload copy\<close>

text \<open>
  The program is one C file, \<^verbatim>\<open>efiextract.c\<close>: \<^verbatim>\<open>main\<close> reads a
  \<^verbatim>\<open>struct linux_efi_zboot_header\<close> from the input file, compares three magic
  fields, converts three little-endian integers with \<^verbatim>\<open>fixendian\<close>, prints them and,
  when an output file was named, calls \<^verbatim>\<open>copy_data\<close>. The model keeps the source's
  names. The C library (\<^verbatim>\<open>fseek\<close>, \<^verbatim>\<open>fread\<close>, \<^verbatim>\<open>fwrite\<close>,
  \<^verbatim>\<open>fclose\<close>, \<^verbatim>\<open>le32toh\<close>) is modelled on explicit file states.
\<close>

subsection \<open>Bytes, files and the C library\<close>

type_synonym byte = "8 word"
type_synonym u32 = "32 word"

text \<open>
  An input \<^verbatim>\<open>FILE *\<close>: the bytes of the file, the file position, whether the
  stream can seek (a regular file can, a pipe cannot), the sizes asked for by each
  \<^verbatim>\<open>fread\<close> call so far, and whether \<^verbatim>\<open>fclose\<close> was called on it.
\<close>

record in_file =
  data :: "byte list"
  pos :: nat
  seekable :: bool
  rlog :: "nat list"
  closed :: bool

text \<open>
  An output \<^verbatim>\<open>FILE *\<close>, a buffered stream on a device. \<open>written\<close> holds the
  bytes the stream has taken, in order: first those that reached the device, then the
  last \<open>unflushed\<close> ones, which are still in the buffer of the stream.
  \<open>device_free\<close> is the number of further bytes the device accepts (a full disk has
  none left). How many bytes a call of \<^verbatim>\<open>fwrite\<close> passes on to the device is the
  choice of the C library: \<open>sends f u sz\<close> gives it for a buffer that holds \<open>u\<close>
  bytes and an item of \<open>sz\<close> bytes. \<open>wlog\<close> records the sizes asked for by each
  \<^verbatim>\<open>fwrite\<close> call so far and \<open>oclosed\<close> whether \<^verbatim>\<open>fclose\<close> was called.
\<close>

record out_file =
  written :: "byte list"
  unflushed :: nat
  device_free :: nat
  sends :: "nat \<Rightarrow> nat \<Rightarrow> nat"
  wlog :: "nat list"
  oclosed :: bool

text \<open>
  The number of further bytes the stream can take and still bring everything to the
  device: what the device accepts, less what the buffer already holds.
\<close>

definition room :: "out_file \<Rightarrow> nat" where
  "room f = device_free f - unflushed f"

text \<open>
  The usual choice of a C library with a buffer of \<open>B\<close> bytes: an item that fits the
  free part of the buffer is only stored there; otherwise the buffer and the item go to
  the device in whole blocks of \<open>B\<close> bytes and the remainder stays in the buffer.
\<close>

definition sends_blocks :: "nat \<Rightarrow> nat \<Rightarrow> nat \<Rightarrow> nat" where
  "sends_blocks B u sz = (if u + sz \<le> B then 0 else ((u + sz) div B) * B)"

text \<open>
  \<^verbatim>\<open>fseek(f, offset, SEEK_SET)\<close> returns 0 and moves the position, also past the
  end of the data (POSIX allows it on a regular file); it returns -1 on a stream that
  cannot seek and on a negative offset.
\<close>

definition fseek :: "in_file \<Rightarrow> int \<Rightarrow> int \<times> in_file" where
  "fseek f offset =
     (if seekable f \<and> 0 \<le> offset then (0, f\<lparr>pos := nat offset\<rparr>) else (-1, f))"

text \<open>
  \<^verbatim>\<open>fread(buf, sz, 1, f)\<close> asks for one item of \<open>sz\<close> bytes. It returns 1 when the
  whole item was read and 0 otherwise (also when \<open>sz\<close> is 0). The bytes that were
  available are stored at the start of the buffer and the position moves past them; the
  rest of the buffer keeps what it held.
\<close>

definition fread :: "byte list \<Rightarrow> nat \<Rightarrow> in_file \<Rightarrow> nat \<times> byte list \<times> in_file" where
  "fread buf sz f =
     (let got = take sz (drop (pos f) (data f))
      in (if 0 < sz \<and> length got = sz then 1 else 0,
          got @ drop (length got) buf,
          f\<lparr>pos := pos f + length got, rlog := rlog f @ [sz]\<rparr>))"

text \<open>
  \<^verbatim>\<open>fwrite(buf, sz, 1, f)\<close> writes one item of \<open>sz\<close> bytes from the start of the
  buffer \<open>buf\<close>. The stream takes the item and passes on to the device as many bytes
  as the C library chooses, at most all it holds. The call returns 1 when the device
  accepted them, also when it passed on nothing and the item only sits in the buffer of
  the stream. When the device does not accept them, it takes the bytes it has room for,
  the rest is lost and the call returns 0. It returns 0 for an item of 0 bytes.
\<close>

definition fwrite :: "byte list \<Rightarrow> nat \<Rightarrow> out_file \<Rightarrow> nat \<times> out_file" where
  "fwrite buf sz f =
     (let n = min (sends f (unflushed f) sz) (unflushed f + sz)
      in if sz = 0 then (0, f\<lparr>wlog := wlog f @ [sz]\<rparr>)
         else if n \<le> device_free f
         then (1, f\<lparr>written := written f @ take sz buf,
                    unflushed := unflushed f + sz - n,
                    device_free := device_free f - n,
                    wlog := wlog f @ [sz]\<rparr>)
         else (0, f\<lparr>written := take (length (written f) - unflushed f + device_free f)
                                  (written f @ take sz buf),
                    unflushed := 0, device_free := 0,
                    wlog := wlog f @ [sz]\<rparr>))"

definition fclose :: "in_file \<Rightarrow> in_file" where
  "fclose f = f\<lparr>closed := True\<rparr>"

text \<open>
  \<^verbatim>\<open>fclose\<close> on an output stream first passes the buffer on to the device, which
  takes the bytes it has room for; the rest is lost. The program never looks at the value
  \<^verbatim>\<open>fclose\<close> returns.
\<close>

definition fclose_out :: "out_file \<Rightarrow> out_file" where
  "fclose_out f =
     f\<lparr>written := take (length (written f) - unflushed f
                         + min (unflushed f) (device_free f)) (written f),
       device_free := device_free f - min (unflushed f) (device_free f),
       unflushed := 0,
       oclosed := True\<rparr>"

subsection \<open>Host byte order and \<^verbatim>\<open>fixendian\<close>\<close>

datatype endian = LittleEndian | BigEndian

text \<open>
  The little-endian encoding of a 32-bit value, as the image holds it: least significant
  byte first.
\<close>

definition encode_le :: "u32 \<Rightarrow> byte list" where
  "encode_le x = [ucast x, ucast (drop_bit 8 x), ucast (drop_bit 16 x), ucast (drop_bit 24 x)]"

text \<open>
  \<^verbatim>\<open>fread\<close> stores the bytes of the file into the struct, so a \<^verbatim>\<open>uint32_t\<close>
  field holds the value that the host reads from those four bytes in its own order.
\<close>

definition load_le32 :: "byte list \<Rightarrow> u32" where
  "load_le32 bs =
     ucast (bs ! 0) OR push_bit 8 (ucast (bs ! 1)) OR push_bit 16 (ucast (bs ! 2))
       OR push_bit 24 (ucast (bs ! 3))"

definition load_be32 :: "byte list \<Rightarrow> u32" where
  "load_be32 bs =
     ucast (bs ! 3) OR push_bit 8 (ucast (bs ! 2)) OR push_bit 16 (ucast (bs ! 1))
       OR push_bit 24 (ucast (bs ! 0))"

definition load_u32 :: "endian \<Rightarrow> byte list \<Rightarrow> u32" where
  "load_u32 host bs = (case host of LittleEndian \<Rightarrow> load_le32 bs | BigEndian \<Rightarrow> load_be32 bs)"

text \<open>
  \<^verbatim>\<open>le32toh\<close> of \<^verbatim>\<open><endian.h>\<close> is the identity on a little-endian host and
  the byte swap \<^verbatim>\<open>bswap_32\<close> on a big-endian one.
\<close>

definition bswap_32 :: "u32 \<Rightarrow> u32" where
  "bswap_32 x =
     drop_bit 24 (x AND 0xff000000) OR drop_bit 8 (x AND 0x00ff0000)
       OR push_bit 8 (x AND 0x0000ff00) OR push_bit 24 (x AND 0x000000ff)"

definition le32toh :: "endian \<Rightarrow> u32 \<Rightarrow> u32" where
  "le32toh host x = (case host of LittleEndian \<Rightarrow> x | BigEndian \<Rightarrow> bswap_32 x)"

definition fixendian :: "endian \<Rightarrow> u32 \<Rightarrow> u32" where
  "fixendian host v = le32toh host v"

subsection \<open>The header\<close>

record linux_efi_zboot_header =
  msdos_magic :: "byte list"
  reserved0 :: "byte list"
  zimg :: "byte list"
  payload_offset :: u32
  payload_size :: u32
  reserved1 :: "byte list"
  compression_type :: "byte list"
  linux_magic :: "byte list"
  pe_header_offset :: u32

text \<open>
  \<^verbatim>\<open>sizeof(struct linux_efi_zboot_header)\<close>: every field lies at a multiple of its
  alignment, so the struct has no padding and its size is the sum of the field sizes.
\<close>

definition sizeof_header :: nat where
  "sizeof_header = 2 + 2 + 4 + 4 + 4 + 8 + 32 + 4 + 4"

definition field :: "byte list \<Rightarrow> nat \<Rightarrow> nat \<Rightarrow> byte list" where
  "field bs off n = take n (drop off bs)"

text \<open>The struct as the host sees it over the bytes that \<^verbatim>\<open>fread\<close> stored.\<close>

definition header_of_bytes :: "endian \<Rightarrow> byte list \<Rightarrow> linux_efi_zboot_header" where
  "header_of_bytes host bs =
     \<lparr>msdos_magic = field bs 0 2,
      reserved0 = field bs 2 2,
      zimg = field bs 4 4,
      payload_offset = load_u32 host (field bs 8 4),
      payload_size = load_u32 host (field bs 12 4),
      reserved1 = field bs 16 8,
      compression_type = field bs 24 32,
      linux_magic = field bs 56 4,
      pe_header_offset = load_u32 host (field bs 60 4)\<rparr>"

definition EFI_PE_MSDOS_MAGIC :: "byte list" where
  "EFI_PE_MSDOS_MAGIC = [0x4D, 0x5A]"

definition ZIMG_MAGIC :: "byte list" where
  "ZIMG_MAGIC = [0x7A, 0x69, 0x6D, 0x67]"

definition EFI_PE_LINUX_MAGIC :: "byte list" where
  "EFI_PE_LINUX_MAGIC = [0xCD, 0x23, 0x82, 0x81]"

text \<open>\<^verbatim>\<open>memcmp(a, b, n) != 0\<close> on the first \<open>n\<close> bytes.\<close>

definition memcmp_differs :: "byte list \<Rightarrow> byte list \<Rightarrow> nat \<Rightarrow> bool" where
  "memcmp_differs a b n = (take n a \<noteq> take n b)"

subsection \<open>\<^verbatim>\<open>copy_data\<close>\<close>

datatype message =
    Usage
  | Error_opening_input
  | Error_opening_output
  | Error_reading_EFI_zboot_header
  | Error_not_a_kernel_EFI_image
  | Error_seeking_data
  | Error_reading_data
  | Error_writing_data

text \<open>
  \<^verbatim>\<open>copy_data\<close> returns \<^verbatim>\<open>void\<close>. It has four ways out: the end of the loop and
  three early \<^verbatim>\<open>return\<close>s, each after a message on \<^verbatim>\<open>stderr\<close> (after a
  failed \<^verbatim>\<open>fseek\<close>, a failed \<^verbatim>\<open>fread\<close>, a failed \<^verbatim>\<open>fwrite\<close>). The model
  records which one was taken, next to the files and the messages; the caller of the C
  function sees none of this.
\<close>

datatype copy_exit = Copied | SeekFailed | ShortRead | WriteFailed

record copy_result =
  exit_path :: copy_exit
  src :: in_file
  dst :: out_file
  diag :: "message list"

definition sizeof_buf :: nat where
  "sizeof_buf = 16384"

text \<open>The loop \<^verbatim>\<open>while (len) { ... }\<close> of \<^verbatim>\<open>copy_data\<close>.\<close>

function copy_loop :: "byte list \<Rightarrow> in_file \<Rightarrow> out_file \<Rightarrow> nat \<Rightarrow> copy_result" where
  "copy_loop buf f_in f_out len =
     (if len \<noteq> 0 then
        (let sz = min len sizeof_buf
         in case fread buf sz f_in of
           (n, buf1, f_in1) \<Rightarrow>
             if n \<noteq> 1 then
               \<lparr>exit_path = ShortRead, src = f_in1, dst = f_out, diag = [Error_reading_data]\<rparr>
             else
               (case fwrite buf1 sz f_out of
                  (m, f_out1) \<Rightarrow>
                    if m \<noteq> 1 then
                      \<lparr>exit_path = WriteFailed, src = f_in1, dst = f_out1,
                       diag = [Error_writing_data]\<rparr>
                    else copy_loop buf1 f_in1 f_out1 (len - sz)))
      else \<lparr>exit_path = Copied, src = f_in, dst = f_out, diag = []\<rparr>)"
  by pat_completeness auto
termination
  by (relation "measure (\<lambda>(buf, f_in, f_out, len). len)") (auto simp: sizeof_buf_def)

declare copy_loop.simps [simp del]

text \<open>
  \<^verbatim>\<open>copy_data(fin, fout, offset, len)\<close>; \<open>buf\<close> is what the uninitialised array
  \<^verbatim>\<open>buf\<close> holds on entry.
\<close>

definition copy_data :: "byte list \<Rightarrow> in_file \<Rightarrow> out_file \<Rightarrow> int \<Rightarrow> nat \<Rightarrow> copy_result" where
  "copy_data buf f_in f_out offset len =
     (case fseek f_in offset of
        (rc, f_in1) \<Rightarrow>
          if rc \<noteq> 0 then
            \<lparr>exit_path = SeekFailed, src = f_in1, dst = f_out, diag = [Error_seeking_data]\<rparr>
          else copy_loop buf f_in1 f_out len)"

subsection \<open>\<^verbatim>\<open>main\<close>\<close>

definition EXIT_SUCCESS :: int where
  "EXIT_SUCCESS = 0"

definition EXIT_FAILURE :: int where
  "EXIT_FAILURE = 1"

text \<open>
  What \<^verbatim>\<open>printf\<close> shows: the compression label (\<^verbatim>\<open>%.*s\<close> with precision 32 stops at
  the first NUL), the payload offset and the payload size.
\<close>

record report =
  compression :: "byte list"
  shown_offset :: nat
  shown_size :: nat

text \<open>
  A run of the program: the exit status, the two streams as the program leaves them
  (\<open>None\<close> when the stream was never opened), and what went to \<^verbatim>\<open>stderr\<close> and
  \<^verbatim>\<open>stdout\<close>.
\<close>

record run =
  status :: int
  fin_end :: "in_file option"
  fout_end :: "out_file option"
  stderr :: "message list"
  stdout :: "report list"

text \<open>
  \<open>open_in\<close> and \<open>open_out\<close> are what \<^verbatim>\<open>fopen(argv[1], "r")\<close> and
  \<^verbatim>\<open>fopen(argv[2], "w")\<close> return (\<open>None\<close> for \<^verbatim>\<open>NULL\<close>); \<open>hdr0\<close> and
  \<open>buf0\<close> are the contents of the uninitialised \<^verbatim>\<open>header\<close> and \<^verbatim>\<open>buf\<close>.
  \<^verbatim>\<open>long\<close> and \<^verbatim>\<open>size_t\<close> hold every \<^verbatim>\<open>uint32_t\<close> value (an LP64 target), so
  the two arguments of \<^verbatim>\<open>copy_data\<close> are the unsigned values of the fields.
\<close>

definition main ::
  "endian \<Rightarrow> nat \<Rightarrow> in_file option \<Rightarrow> out_file option \<Rightarrow> byte list \<Rightarrow> byte list \<Rightarrow> run" where
  "main host argc open_in open_out hdr0 buf0 =
     (if argc < 2 then
        \<lparr>status = EXIT_FAILURE, fin_end = None, fout_end = None, stderr = [Usage], stdout = []\<rparr>
      else
        (case open_in of
           None \<Rightarrow>
             \<lparr>status = EXIT_FAILURE, fin_end = None, fout_end = None,
              stderr = [Error_opening_input], stdout = []\<rparr>
         | Some f_in \<Rightarrow>
             if argc > 2 \<and> open_out = None then
               \<lparr>status = EXIT_FAILURE, fin_end = Some (fclose f_in), fout_end = None,
                stderr = [Error_opening_output], stdout = []\<rparr>
             else
               (let f_out = (if argc > 2 then open_out else None)
                in case fread hdr0 sizeof_header f_in of
                  (len, hdr, f_in1) \<Rightarrow>
                    if len \<noteq> 1 then
                      \<lparr>status = EXIT_FAILURE, fin_end = Some (fclose f_in1), fout_end = f_out,
                       stderr = [Error_reading_EFI_zboot_header], stdout = []\<rparr>
                    else
                      (let header = header_of_bytes host hdr
                       in if memcmp_differs (msdos_magic header) EFI_PE_MSDOS_MAGIC 2
                             \<or> memcmp_differs (zimg header) ZIMG_MAGIC 4
                             \<or> memcmp_differs (linux_magic header) EFI_PE_LINUX_MAGIC 4
                          then
                            \<lparr>status = EXIT_FAILURE, fin_end = Some f_in1, fout_end = f_out,
                             stderr = [Error_not_a_kernel_EFI_image], stdout = []\<rparr>
                          else
                            (let header = header
                                   \<lparr>payload_offset := fixendian host (payload_offset header),
                                    payload_size := fixendian host (payload_size header),
                                    pe_header_offset := fixendian host (pe_header_offset header)\<rparr>;
                                 out = [\<lparr>compression = takeWhile (\<lambda>c. c \<noteq> 0) (compression_type header),
                                         shown_offset = unat (payload_offset header),
                                         shown_size = unat (payload_size header)\<rparr>]
                             in case f_out of
                                  Some fo \<Rightarrow>
                                    (let r = copy_data buf0 f_in1 fo (uint (payload_offset header))
                                               (unat (payload_size header))
                                     in \<lparr>status = EXIT_SUCCESS, fin_end = Some (fclose (src r)),
                                         fout_end = Some (fclose_out (dst r)),
                                         stderr = diag r, stdout = out\<rparr>)
                                | None \<Rightarrow>
                                    \<lparr>status = EXIT_SUCCESS, fin_end = Some (fclose f_in1),
                                     fout_end = None, stderr = [], stdout = out\<rparr>)))))"

subsection \<open>Auxiliary notions for the statements\<close>

text \<open>
  The sizes of the chunks of a transfer of \<open>len\<close> bytes: whole buffers, then the
  remainder if there is one.
\<close>

definition chunk_sizes :: "nat \<Rightarrow> nat list" where
  "chunk_sizes len =
     replicate (len div sizeof_buf) sizeof_buf
       @ (if len mod sizeof_buf = 0 then [] else [len mod sizeof_buf])"

text \<open>
  What \<^verbatim>\<open>fopen\<close> returns: a regular file opened for reading, a pipe opened for
  reading, and a file created for writing on a device with room for \<open>n\<close> bytes, with
  an empty buffer of 4096 bytes.
\<close>

definition regular_file :: "byte list \<Rightarrow> in_file" where
  "regular_file bs = \<lparr>data = bs, pos = 0, seekable = True, rlog = [], closed = False\<rparr>"

definition pipe_input :: "byte list \<Rightarrow> in_file" where
  "pipe_input bs = \<lparr>data = bs, pos = 0, seekable = False, rlog = [], closed = False\<rparr>"

definition new_output :: "nat \<Rightarrow> out_file" where
  "new_output n =
     \<lparr>written = [], unflushed = 0, device_free = n, sends = sends_blocks 4096,
      wlog = [], oclosed = False\<rparr>"

text \<open>
  A zboot header: \<^verbatim>\<open>MZ\<close>, \<^verbatim>\<open>zimg\<close>, payload offset 64, payload size 4,
  compression type \<^verbatim>\<open>gzip\<close>, the Linux magic, PE header offset 0.
\<close>

definition sample_header :: "byte list" where
  "sample_header =
     [0x4D, 0x5A, 0, 0, 0x7A, 0x69, 0x6D, 0x67,
      0x40, 0, 0, 0, 0x04, 0, 0, 0,
      0, 0, 0, 0, 0, 0, 0, 0,
      0x67, 0x7A, 0x69, 0x70, 0, 0, 0, 0,
      0, 0, 0, 0, 0, 0, 0, 0,
      0, 0, 0, 0, 0, 0, 0, 0,
      0, 0, 0, 0, 0, 0, 0, 0,
      0xCD, 0x23, 0x82, 0x81, 0, 0, 0, 0]"

text \<open>The header followed by its four payload bytes.\<close>

definition sample_image :: "byte list" where
  "sample_image = sample_header @ [0xAA, 0xBB, 0xCC, 0xDD]"

text \<open>The same image cut after two of the four payload bytes.\<close>

definition cut_image :: "byte list" where
  "cut_image = sample_header @ [0xAA, 0xBB]"

text \<open>
  A zboot header as before with payload size 16384, followed by a payload of that many
  bytes.
\<close>

definition chunk_header :: "byte list" where
  "chunk_header =
     [0x4D, 0x5A, 0, 0, 0x7A, 0x69, 0x6D, 0x67,
      0x40, 0, 0, 0, 0, 0x40, 0, 0,
      0, 0, 0, 0, 0, 0, 0, 0,
      0x67, 0x7A, 0x69, 0x70, 0, 0, 0, 0,
      0, 0, 0, 0, 0, 0, 0, 0,
      0, 0, 0, 0, 0, 0, 0, 0,
      0, 0, 0, 0, 0, 0, 0, 0,
      0xCD, 0x23, 0x82, 0x81, 0, 0, 0, 0]"

definition chunk_image :: "byte list" where
  "chunk_image = chunk_header @ replicate 16384 0x5A"

text \<open>The same image with \<^verbatim>\<open>MZ\<close> altered to \<^verbatim>\<open>MX\<close>.\<close>

definition mx_image :: "byte list" where
  "mx_image = sample_image[1 := 0x58]"

section \<open>Properties\<close>

subsection \<open>The byte order conversion\<close>

lemma bit_index_cases:
  assumes "n < (32::nat)"
  obtains "n < 8" | "8 \<le> n" "n < 16" | "16 \<le> n" "n < 24" | "24 \<le> n" "n < 32"
  using assms by linarith

lemma byte_masks:
  "(0x000000ff::u32) = mask 8" "(0x0000ff00::u32) = push_bit 8 (mask 8)"
  "(0x00ff0000::u32) = push_bit 16 (mask 8)" "(0xff000000::u32) = push_bit 24 (mask 8)"
  by (simp_all add: mask_eq_exp_minus_1 push_bit_eq_mult)

lemma byte_bit: "bit (b :: byte) n \<Longrightarrow> n < 8"
  using bit_imp_le_length [of b n] by simp

lemma load_le32_encode_le: "load_le32 (encode_le x) = x"
proof (rule bit_word_eqI)
  fix n assume "n < LENGTH(32)"
  then have "n < 32" by simp
  then show "bit (load_le32 (encode_le x)) n = bit x n"
    by (cases n rule: bit_index_cases) (auto simp add: load_le32_def encode_le_def bit_simps)
qed

text \<open>On a big-endian host the swap turns the value the host loaded into the
  little-endian reading of the same four bytes.\<close>

lemma bswap_32_load_be32: "bswap_32 (load_be32 bs) = load_le32 bs"
proof (rule bit_word_eqI)
  fix n assume "n < LENGTH(32)"
  then have "n < 32" by simp
  then show "bit (bswap_32 (load_be32 bs)) n = bit (load_le32 bs) n"
    unfolding bswap_32_def byte_masks
    by (cases n rule: bit_index_cases)
      (auto simp add: load_be32_def load_le32_def bit_simps dest: byte_bit)
qed

lemma fixendian_load_u32: "fixendian host (load_u32 host bs) = load_le32 bs"
  by (cases host) (simp_all add: fixendian_def le32toh_def load_u32_def bswap_32_load_be32)

subsection \<open>One call of the C library\<close>

lemma fseek_done:
  assumes "seekable f" "0 \<le> offset"
  shows "fseek f offset = (0, f\<lparr>pos := nat offset\<rparr>)"
  using assms by (simp add: fseek_def)

lemma fseek_refused:
  assumes "\<not> (seekable f \<and> 0 \<le> offset)"
  shows "fseek f offset = (-1, f)"
  using assms by (simp add: fseek_def)

lemma fread_whole:
  assumes "0 < sz" "pos f + sz \<le> length (data f)"
  shows "fread buf sz f =
           (1, take sz (drop (pos f) (data f)) @ drop sz buf,
            f\<lparr>pos := pos f + sz, rlog := rlog f @ [sz]\<rparr>)"
proof -
  have "length (take sz (drop (pos f) (data f))) = sz"
    using assms by simp
  then show ?thesis
    using assms by (simp add: fread_def Let_def)
qed

lemma fread_short:
  assumes "length (data f) < pos f + sz"
  shows "fread buf sz f =
           (0, drop (pos f) (data f) @ drop (length (data f) - pos f) buf,
            f\<lparr>pos := pos f + (length (data f) - pos f), rlog := rlog f @ [sz]\<rparr>)"
proof -
  have "take sz (drop (pos f) (data f)) = drop (pos f) (data f)"
    using assms by simp
  moreover have "\<not> (0 < sz \<and> length (drop (pos f) (data f)) = sz)"
    using assms by auto
  ultimately show ?thesis
    by (simp add: fread_def Let_def)
qed

lemma fwrite_ok:
  assumes "0 < sz" "sz \<le> room f"
  shows "fst (fwrite buf sz f) = 1"
    and "room (snd (fwrite buf sz f)) = room f - sz"
    and "unflushed (snd (fwrite buf sz f)) \<le> device_free (snd (fwrite buf sz f))"
proof -
  let ?n = "min (sends f (unflushed f) sz) (unflushed f + sz)"
  have fit: "unflushed f + sz \<le> device_free f"
    using assms by (simp add: room_def)
  then have n: "?n \<le> device_free f" "?n \<le> unflushed f + sz"
    by simp_all
  then have eq: "fwrite buf sz f =
      (1, f\<lparr>written := written f @ take sz buf, unflushed := unflushed f + sz - ?n,
            device_free := device_free f - ?n, wlog := wlog f @ [sz]\<rparr>)"
    using assms(1) by (simp add: fwrite_def Let_def)
  show "fst (fwrite buf sz f) = 1"
    by (simp add: eq)
  show "room (snd (fwrite buf sz f)) = room f - sz"
    unfolding eq room_def using fit n by simp
  show "unflushed (snd (fwrite buf sz f)) \<le> device_free (snd (fwrite buf sz f))"
    unfolding eq using fit n by simp
qed

lemma fwrite_taken:
  assumes "fst (fwrite buf sz f) = 1"
  shows "written (snd (fwrite buf sz f)) = written f @ take sz buf"
  using assms by (simp add: fwrite_def Let_def split: if_splits)

lemma fwrite_wlog: "wlog (snd (fwrite buf sz f)) = wlog f @ [sz]"
  by (simp add: fwrite_def Let_def)

lemma take_chunk:
  "p + sz \<le> length d \<Longrightarrow> take sz (take sz (drop p d) @ rest) = take sz (drop p d)"
  by simp

lemma fclose_out_kept:
  assumes "unflushed f \<le> device_free f"
  shows "written (fclose_out f) = written f" and "unflushed (fclose_out f) = 0"
  using assms by (simp_all add: fclose_out_def)

subsection \<open>Chunk sizes\<close>

lemma sizeof_buf_pos: "0 < sizeof_buf"
  by (simp add: sizeof_buf_def)

lemma chunk_pos: "0 < len \<Longrightarrow> 0 < min len sizeof_buf"
  by (simp add: sizeof_buf_def)

lemma chunk_sizes_zero: "chunk_sizes 0 = []"
  by (simp add: chunk_sizes_def)

lemma chunk_sizes_step:
  assumes "0 < len"
  shows "chunk_sizes len = min len sizeof_buf # chunk_sizes (len - min len sizeof_buf)"
proof (cases "len < sizeof_buf")
  case True
  with assms show ?thesis
    by (simp add: chunk_sizes_def)
next
  case False
  then have le: "sizeof_buf \<le> len" by simp
  have "len div sizeof_buf = Suc ((len - sizeof_buf) div sizeof_buf)"
    by (rule le_div_geq [OF sizeof_buf_pos le])
  moreover have "len mod sizeof_buf = (len - sizeof_buf) mod sizeof_buf"
    using le by (rule le_mod_geq)
  moreover have "min len sizeof_buf = sizeof_buf"
    using le by simp
  ultimately show ?thesis
    by (simp add: chunk_sizes_def)
qed

lemma chunk_sizes_bound:
  assumes "c \<in> set (chunk_sizes len)"
  shows "0 < c \<and> c \<le> sizeof_buf"
proof -
  have "len mod sizeof_buf < sizeof_buf"
    using sizeof_buf_pos by (rule mod_less_divisor)
  then have "len mod sizeof_buf \<noteq> 0 \<Longrightarrow> 0 < len mod sizeof_buf \<and> len mod sizeof_buf \<le> sizeof_buf"
    by linarith
  moreover have "c = sizeof_buf \<or> (len mod sizeof_buf \<noteq> 0 \<and> c = len mod sizeof_buf)"
    using assms unfolding chunk_sizes_def by (cases "len mod sizeof_buf = 0") auto
  ultimately show ?thesis
    using sizeof_buf_pos by blast
qed

lemma sum_list_chunk_sizes: "sum_list (chunk_sizes len) = len"
proof -
  have "len div sizeof_buf * sizeof_buf + len mod sizeof_buf = len"
    by (rule div_mult_mod_eq)
  then show ?thesis
    unfolding chunk_sizes_def by (cases "len mod sizeof_buf = 0") (simp_all add: sum_list_replicate)
qed

lemma length_chunk_sizes:
  "length (chunk_sizes len) = len div sizeof_buf + (if len mod sizeof_buf = 0 then 0 else 1)"
  by (simp add: chunk_sizes_def)

lemma whole_chunks_Suc:
  assumes "p + sizeof_buf \<le> n"
  shows "(n - p) div sizeof_buf = Suc ((n - (p + sizeof_buf)) div sizeof_buf)"
proof -
  have "sizeof_buf \<le> n - p" using assms by linarith
  then have "(n - p) div sizeof_buf = Suc ((n - p - sizeof_buf) div sizeof_buf)"
    by (rule le_div_geq [OF sizeof_buf_pos])
  then show ?thesis by (simp add: add.commute)
qed

lemma whole_chunks_zero:
  assumes "n < p + sizeof_buf"
  shows "(n - p) div sizeof_buf = 0"
proof -
  have "n - p < sizeof_buf" using assms sizeof_buf_pos by linarith
  then show ?thesis by (rule div_less)
qed

lemma whole_chunks_le: "((n - p) div sizeof_buf) * sizeof_buf \<le> n - p"
  by simp

lemma take_take_drop:
  "sz \<le> len \<Longrightarrow> take sz (drop p d) @ take (len - sz) (drop (p + sz) d) = take len (drop p d)"
  using take_add [of sz "len - sz" "drop p d"] by (simp add: add.commute)

subsection \<open>One iteration of the loop\<close>

lemma copy_loop_zero:
  "copy_loop buf f_in f_out 0 = \<lparr>exit_path = Copied, src = f_in, dst = f_out, diag = []\<rparr>"
  by (subst copy_loop.simps) simp

lemma copy_loop_unfold:
  assumes "0 < len"
  shows "copy_loop buf f_in f_out len =
     (case fread buf (min len sizeof_buf) f_in of
        (n, buf1, f_in1) \<Rightarrow>
          if n \<noteq> 1 then
            \<lparr>exit_path = ShortRead, src = f_in1, dst = f_out, diag = [Error_reading_data]\<rparr>
          else
            (case fwrite buf1 (min len sizeof_buf) f_out of
               (m, f_out1) \<Rightarrow>
                 if m \<noteq> 1 then
                   \<lparr>exit_path = WriteFailed, src = f_in1, dst = f_out1,
                    diag = [Error_writing_data]\<rparr>
                 else copy_loop buf1 f_in1 f_out1 (len - min len sizeof_buf)))"
  using assms by (subst copy_loop.simps) (simp add: Let_def)

lemma copy_loop_short:
  assumes "0 < len" "length (data f_in) < pos f_in + min len sizeof_buf"
  shows "copy_loop buf f_in f_out len =
           \<lparr>exit_path = ShortRead,
            src = f_in\<lparr>pos := pos f_in + (length (data f_in) - pos f_in),
                      rlog := rlog f_in @ [min len sizeof_buf]\<rparr>,
            dst = f_out, diag = [Error_reading_data]\<rparr>"
  unfolding copy_loop_unfold [OF assms(1)] fread_short [OF assms(2)] by simp

text \<open>When the read of an iteration succeeds, the buffer starts with the chunk, and
  the write decides.\<close>

lemma copy_loop_refused:
  assumes "0 < len" "pos f_in + min len sizeof_buf \<le> length (data f_in)"
    "fst (fwrite (take (min len sizeof_buf) (drop (pos f_in) (data f_in))
                    @ drop (min len sizeof_buf) buf) (min len sizeof_buf) f_out) \<noteq> 1"
  shows "exit_path (copy_loop buf f_in f_out len) = WriteFailed"
    and "diag (copy_loop buf f_in f_out len) = [Error_writing_data]"
    and "rlog (src (copy_loop buf f_in f_out len)) = rlog f_in @ [min len sizeof_buf]"
    and "wlog (dst (copy_loop buf f_in f_out len)) = wlog f_out @ [min len sizeof_buf]"
  unfolding copy_loop_unfold [OF assms(1)] fread_whole [OF chunk_pos [OF assms(1)] assms(2)]
  using assms(3) by (simp_all add: case_prod_beta fwrite_wlog)

lemma copy_loop_step:
  assumes "0 < len" "pos f_in + min len sizeof_buf \<le> length (data f_in)"
    "fst (fwrite (take (min len sizeof_buf) (drop (pos f_in) (data f_in))
                    @ drop (min len sizeof_buf) buf) (min len sizeof_buf) f_out) = 1"
  shows "copy_loop buf f_in f_out len =
           copy_loop (take (min len sizeof_buf) (drop (pos f_in) (data f_in))
                        @ drop (min len sizeof_buf) buf)
             (f_in\<lparr>pos := pos f_in + min len sizeof_buf,
                   rlog := rlog f_in @ [min len sizeof_buf]\<rparr>)
             (snd (fwrite (take (min len sizeof_buf) (drop (pos f_in) (data f_in))
                             @ drop (min len sizeof_buf) buf) (min len sizeof_buf) f_out))
             (len - min len sizeof_buf)"
  unfolding copy_loop_unfold [OF assms(1)] fread_whole [OF chunk_pos [OF assms(1)] assms(2)]
  using assms(3) by (simp add: case_prod_beta)

lemma written_after_chunk:
  assumes "p + sz \<le> length d" "fst (fwrite (take sz (drop p d) @ rest) sz f) = 1"
  shows "written (snd (fwrite (take sz (drop p d) @ rest) sz f))
           = written f @ take sz (drop p d)"
  unfolding fwrite_taken [OF assms(2)] take_chunk [OF assms(1)] ..

subsection \<open>The whole loop\<close>

lemma copy_loop_Copied:
  assumes "pos f_in + len \<le> length (data f_in)" "len \<le> room f_out"
  shows "exit_path (copy_loop buf f_in f_out len) = Copied
       \<and> diag (copy_loop buf f_in f_out len) = []
       \<and> src (copy_loop buf f_in f_out len) =
           f_in\<lparr>pos := pos f_in + len, rlog := rlog f_in @ chunk_sizes len\<rparr>
       \<and> written (dst (copy_loop buf f_in f_out len)) =
           written f_out @ take len (drop (pos f_in) (data f_in))
       \<and> wlog (dst (copy_loop buf f_in f_out len)) = wlog f_out @ chunk_sizes len
       \<and> room (dst (copy_loop buf f_in f_out len)) = room f_out - len
       \<and> (0 < len \<longrightarrow> unflushed (dst (copy_loop buf f_in f_out len))
                          \<le> device_free (dst (copy_loop buf f_in f_out len)))"
  using assms
proof (induction len arbitrary: buf f_in f_out rule: less_induct)
  case (less len)
  show ?case
  proof (cases "len = 0")
    case True
    then show ?thesis
      by (simp add: copy_loop_zero chunk_sizes_zero)
  next
    case False
    let ?sz = "min len sizeof_buf"
    let ?buf1 = "take ?sz (drop (pos f_in) (data f_in)) @ drop ?sz buf"
    let ?in1 = "f_in\<lparr>pos := pos f_in + ?sz, rlog := rlog f_in @ [?sz]\<rparr>"
    let ?out1 = "snd (fwrite ?buf1 ?sz f_out)"
    have len: "0 < len" using False by simp
    have sz: "0 < ?sz" "?sz \<le> len" using len by (simp_all add: sizeof_buf_def)
    have rd: "pos f_in + ?sz \<le> length (data f_in)" using less.prems(1) sz(2) by linarith
    have wr: "?sz \<le> room f_out" using less.prems(2) sz(2) by linarith
    have w1: "fst (fwrite ?buf1 ?sz f_out) = 1"
      by (rule fwrite_ok(1) [OF sz(1) wr])
    have o1: "written ?out1 = written f_out @ take ?sz (drop (pos f_in) (data f_in))"
      "wlog ?out1 = wlog f_out @ [?sz]" "room ?out1 = room f_out - ?sz"
      "unflushed ?out1 \<le> device_free ?out1"
      by (rule written_after_chunk [OF rd w1], rule fwrite_wlog,
          rule fwrite_ok(2) [OF sz(1) wr], rule fwrite_ok(3) [OF sz(1) wr])
    have smaller: "len - ?sz < len" using sz len by linarith
    have p1: "pos ?in1 + (len - ?sz) \<le> length (data ?in1)"
      using less.prems(1) sz(2) by simp
    have p2: "len - ?sz \<le> room ?out1"
      using less.prems(2) o1(3) by simp
    note IH = less.IH [OF smaller p1 p2, of ?buf1]
    note step = copy_loop_step [OF len rd w1]
    have last: "unflushed (dst (copy_loop ?buf1 ?in1 ?out1 (len - ?sz)))
                  \<le> device_free (dst (copy_loop ?buf1 ?in1 ?out1 (len - ?sz)))"
    proof (cases "len - ?sz = 0")
      case True
      have d: "dst (copy_loop ?buf1 ?in1 ?out1 (len - ?sz)) = ?out1"
        unfolding True copy_loop_zero by (simp only: copy_result.select_convs)
      show ?thesis
        unfolding d by (rule o1(4))
    next
      case False
      with IH show ?thesis by simp
    qed
    let ?r1 = "copy_loop ?buf1 ?in1 ?out1 (len - ?sz)"
    note cs = chunk_sizes_step [OF len]
    have tk: "take ?sz (drop (pos f_in) (data f_in))
                @ take (len - ?sz) (drop (pos f_in + ?sz) (data f_in))
              = take len (drop (pos f_in) (data f_in))"
      using sz(2) by (rule take_take_drop)
    have rm: "room f_out - ?sz - (len - ?sz) = room f_out - len"
      using sz(2) by simp
    from IH have e: "exit_path ?r1 = Copied" and dg: "diag ?r1 = []"
      and sr: "src ?r1 = ?in1\<lparr>pos := pos ?in1 + (len - ?sz),
                               rlog := rlog ?in1 @ chunk_sizes (len - ?sz)\<rparr>"
      and wn: "written (dst ?r1) =
                 written ?out1 @ take (len - ?sz) (drop (pos ?in1) (data ?in1))"
      and wl: "wlog (dst ?r1) = wlog ?out1 @ chunk_sizes (len - ?sz)"
      and rm1: "room (dst ?r1) = room ?out1 - (len - ?sz)"
      by blast+
    have s': "src ?r1 = f_in\<lparr>pos := pos f_in + len, rlog := rlog f_in @ chunk_sizes len\<rparr>"
      unfolding sr cs using sz(2) by simp
    have w': "written (dst ?r1) = written f_out @ take len (drop (pos f_in) (data f_in))"
      unfolding wn o1(1) using tk by simp
    have l': "wlog (dst ?r1) = wlog f_out @ chunk_sizes len"
      unfolding wl o1(2) cs by simp
    have r': "room (dst ?r1) = room f_out - len"
      unfolding rm1 o1(3) by (rule rm)
    show ?thesis
      unfolding step using e dg s' w' l' r' last by blast
  qed
qed

text \<open>What a run of the loop that ends with the read error has done.\<close>

lemma copy_loop_ShortRead_exit:
  assumes "exit_path (copy_loop buf f_in f_out len) = ShortRead"
  shows "0 < len \<and> length (data f_in) < pos f_in + len
       \<and> diag (copy_loop buf f_in f_out len) = [Error_reading_data]
       \<and> written (dst (copy_loop buf f_in f_out len)) =
           written f_out
             @ take (((length (data f_in) - pos f_in) div sizeof_buf) * sizeof_buf)
                 (drop (pos f_in) (data f_in))
       \<and> wlog (dst (copy_loop buf f_in f_out len)) =
           wlog f_out @ replicate ((length (data f_in) - pos f_in) div sizeof_buf) sizeof_buf
       \<and> rlog (src (copy_loop buf f_in f_out len)) =
           rlog f_in @ replicate ((length (data f_in) - pos f_in) div sizeof_buf) sizeof_buf
             @ [min (len - ((length (data f_in) - pos f_in) div sizeof_buf) * sizeof_buf)
                  sizeof_buf]"
  using assms
proof (induction len arbitrary: buf f_in f_out rule: less_induct)
  case (less len)
  let ?sz = "min len sizeof_buf"
  let ?k = "(length (data f_in) - pos f_in) div sizeof_buf"
  have len: "0 < len"
  proof (rule ccontr)
    assume "\<not> 0 < len"
    then have "len = 0" by simp
    with less.prems show False by (simp add: copy_loop_zero)
  qed
  have sz_le: "?sz \<le> len" by simp
  show ?case
  proof (cases "length (data f_in) < pos f_in + ?sz")
    case True
    then have "length (data f_in) < pos f_in + sizeof_buf" by simp
    then have k: "?k = 0" by (rule whole_chunks_zero)
    have "length (data f_in) < pos f_in + len" using True sz_le by linarith
    with len show ?thesis
      unfolding copy_loop_short [OF len True] k by simp
  next
    case False
    then have rd: "pos f_in + ?sz \<le> length (data f_in)" by simp
    let ?buf1 = "take ?sz (drop (pos f_in) (data f_in)) @ drop ?sz buf"
    let ?in1 = "f_in\<lparr>pos := pos f_in + ?sz, rlog := rlog f_in @ [?sz]\<rparr>"
    let ?out1 = "snd (fwrite ?buf1 ?sz f_out)"
    have w1: "fst (fwrite ?buf1 ?sz f_out) = 1"
    proof (rule ccontr)
      assume "fst (fwrite ?buf1 ?sz f_out) \<noteq> 1"
      from copy_loop_refused(1) [OF len rd this] less.prems show False by simp
    qed
    note step = copy_loop_step [OF len rd w1]
    have sr: "exit_path (copy_loop ?buf1 ?in1 ?out1 (len - ?sz)) = ShortRead"
      using less.prems unfolding step .
    have smaller: "len - ?sz < len" using len sizeof_buf_pos by simp
    note IH = less.IH [OF smaller sr]
    from IH have more: "0 < len - ?sz" by simp
    then have sz: "?sz = sizeof_buf" and lt: "sizeof_buf < len" by simp_all
    have rd': "pos f_in + sizeof_buf \<le> length (data f_in)" using rd sz by simp
    have k: "?k = Suc ((length (data f_in) - (pos f_in + sizeof_buf)) div sizeof_buf)"
      using rd' by (rule whole_chunks_Suc)
    let ?k' = "(length (data f_in) - (pos f_in + sizeof_buf)) div sizeof_buf"
    have o1: "written ?out1 = written f_out @ take ?sz (drop (pos f_in) (data f_in))"
      "wlog ?out1 = wlog f_out @ [?sz]"
      by (rule written_after_chunk [OF rd w1], rule fwrite_wlog)
    have tk: "take sizeof_buf (drop (pos f_in) (data f_in))
                @ take (?k' * sizeof_buf) (drop (pos f_in + sizeof_buf) (data f_in))
              = take (Suc ?k' * sizeof_buf) (drop (pos f_in) (data f_in))"
      using take_take_drop [of sizeof_buf "Suc ?k' * sizeof_buf" "pos f_in" "data f_in"]
      by simp
    have short: "length (data f_in) < pos f_in + len"
      using IH lt sz by simp
    show ?thesis
      unfolding step
      using IH o1 tk len short unfolding k sz
      by (simp add: replicate_append_same)
  qed
qed

lemma copy_loop_ShortRead:
  assumes "0 < len" "length (data f_in) < pos f_in + len"
    "((length (data f_in) - pos f_in) div sizeof_buf) * sizeof_buf \<le> room f_out"
  shows "exit_path (copy_loop buf f_in f_out len) = ShortRead"
  using assms
proof (induction len arbitrary: buf f_in f_out rule: less_induct)
  case (less len)
  let ?sz = "min len sizeof_buf"
  let ?k = "(length (data f_in) - pos f_in) div sizeof_buf"
  have len: "0 < len" by (rule less.prems(1))
  show ?case
  proof (cases "length (data f_in) < pos f_in + ?sz")
    case True
    show ?thesis
      unfolding copy_loop_short [OF len True] by simp
  next
    case False
    then have rd: "pos f_in + ?sz \<le> length (data f_in)" by simp
    with less.prems(2) have "?sz < len" by linarith
    then have sz: "?sz = sizeof_buf" and lt: "sizeof_buf < len" by simp_all
    have rd': "pos f_in + sizeof_buf \<le> length (data f_in)" using rd sz by simp
    have k: "?k = Suc ((length (data f_in) - (pos f_in + sizeof_buf)) div sizeof_buf)"
      using rd' by (rule whole_chunks_Suc)
    have wr: "?sz \<le> room f_out" using less.prems(3) k sz by simp
    let ?buf1 = "take ?sz (drop (pos f_in) (data f_in)) @ drop ?sz buf"
    let ?in1 = "f_in\<lparr>pos := pos f_in + ?sz, rlog := rlog f_in @ [?sz]\<rparr>"
    let ?out1 = "snd (fwrite ?buf1 ?sz f_out)"
    have w1: "fst (fwrite ?buf1 ?sz f_out) = 1"
      by (rule fwrite_ok(1) [OF chunk_pos [OF len] wr])
    have rm: "room ?out1 = room f_out - ?sz"
      by (rule fwrite_ok(2) [OF chunk_pos [OF len] wr])
    have smaller: "len - ?sz < len" using sz lt sizeof_buf_pos by linarith
    have p1: "0 < len - ?sz" using sz lt by simp
    have p2: "length (data ?in1) < pos ?in1 + (len - ?sz)"
      using less.prems(2) sz lt by simp
    have p3: "((length (data ?in1) - pos ?in1) div sizeof_buf) * sizeof_buf \<le> room ?out1"
      using less.prems(3) k sz rm by simp
    show ?thesis
      unfolding copy_loop_step [OF len rd w1]
      by (rule less.IH [OF smaller p1 p2 p3])
  qed
qed

text \<open>A source that ends before the last byte asked for never lets the loop reach its
  end, whatever the sink does.\<close>

lemma copy_loop_not_Copied:
  assumes "0 < len" "length (data f_in) < pos f_in + len"
  shows "exit_path (copy_loop buf f_in f_out len) \<noteq> Copied"
  using assms
proof (induction len arbitrary: buf f_in f_out rule: less_induct)
  case (less len)
  let ?sz = "min len sizeof_buf"
  let ?buf1 = "take ?sz (drop (pos f_in) (data f_in)) @ drop ?sz buf"
  let ?in1 = "f_in\<lparr>pos := pos f_in + ?sz, rlog := rlog f_in @ [?sz]\<rparr>"
  let ?out1 = "snd (fwrite ?buf1 ?sz f_out)"
  have len: "0 < len" by (rule less.prems(1))
  consider (short) "length (data f_in) < pos f_in + ?sz"
    | (refused) "pos f_in + ?sz \<le> length (data f_in)" "fst (fwrite ?buf1 ?sz f_out) \<noteq> 1"
    | (step) "pos f_in + ?sz \<le> length (data f_in)" "fst (fwrite ?buf1 ?sz f_out) = 1"
    by linarith
  then show ?case
  proof cases
    case short
    show ?thesis
      unfolding copy_loop_short [OF len short] by simp
  next
    case refused
    show ?thesis
      unfolding copy_loop_refused(1) [OF len refused] by simp
  next
    case step
    from step(1) less.prems(2) have "?sz < len" by linarith
    then have p1: "0 < len - ?sz" by simp
    have p2: "length (data ?in1) < pos ?in1 + (len - ?sz)"
      using less.prems(2) \<open>?sz < len\<close> by simp
    have smaller: "len - ?sz < len" using len sizeof_buf_pos by simp
    show ?thesis
      unfolding copy_loop_step [OF len step]
      by (rule less.IH [OF smaller p1 p2])
  qed
qed

text \<open>The reads of the loop are an initial part of the chunk sequence, and every write
  repeats a read that came before it.\<close>

lemma copy_loop_logs:
  "\<exists>n. n \<le> length (chunk_sizes len)
     \<and> rlog (src (copy_loop buf f_in f_out len)) = rlog f_in @ take n (chunk_sizes len)
     \<and> wlog (dst (copy_loop buf f_in f_out len)) =
         wlog f_out
           @ take (if exit_path (copy_loop buf f_in f_out len) = ShortRead then n - 1 else n)
               (chunk_sizes len)"
proof (induction len arbitrary: buf f_in f_out rule: less_induct)
  case (less len)
  show ?case
  proof (cases "len = 0")
    case True
    then show ?thesis
      by (simp add: copy_loop_zero chunk_sizes_zero)
  next
    case False
    let ?sz = "min len sizeof_buf"
    let ?buf1 = "take ?sz (drop (pos f_in) (data f_in)) @ drop ?sz buf"
    let ?in1 = "f_in\<lparr>pos := pos f_in + ?sz, rlog := rlog f_in @ [?sz]\<rparr>"
    let ?out1 = "snd (fwrite ?buf1 ?sz f_out)"
    have len: "0 < len" using False by simp
    note cs = chunk_sizes_step [OF len]
    consider (short) "length (data f_in) < pos f_in + ?sz"
      | (refused) "pos f_in + ?sz \<le> length (data f_in)" "fst (fwrite ?buf1 ?sz f_out) \<noteq> 1"
      | (step) "pos f_in + ?sz \<le> length (data f_in)" "fst (fwrite ?buf1 ?sz f_out) = 1"
      by linarith
    then show ?thesis
    proof cases
      case short
      show ?thesis
        unfolding copy_loop_short [OF len short] cs
        by (rule exI [of _ 1]) simp
    next
      case refused
      show ?thesis
        unfolding copy_loop_refused [OF len refused] cs
        by (rule exI [of _ 1]) simp
    next
      case step
      have smaller: "len - ?sz < len" using len sizeof_buf_pos by simp
      let ?r = "copy_loop ?buf1 ?in1 ?out1 (len - ?sz)"
      from less.IH [OF smaller, of ?buf1 ?in1 ?out1]
      obtain n where n: "n \<le> length (chunk_sizes (len - ?sz))"
        "rlog (src ?r) = rlog ?in1 @ take n (chunk_sizes (len - ?sz))"
        "wlog (dst ?r) = wlog ?out1
           @ take (if exit_path ?r = ShortRead then n - 1 else n) (chunk_sizes (len - ?sz))"
        by blast
      have o1: "wlog ?out1 = wlog f_out @ [?sz]"
        by (rule fwrite_wlog)
      have pos_n: "exit_path ?r = ShortRead \<Longrightarrow> 0 < n"
      proof (rule ccontr)
        assume sr: "exit_path ?r = ShortRead" and "\<not> 0 < n"
        then have "rlog (src ?r) = rlog ?in1" using n(2) by simp
        with copy_loop_ShortRead_exit [OF sr] show False by simp
      qed
      show ?thesis
      proof (cases "exit_path ?r = ShortRead")
        case True
        then have "0 < n" by (rule pos_n)
        then have "take n (?sz # chunk_sizes (len - ?sz))
                     = ?sz # take (n - 1) (chunk_sizes (len - ?sz))"
          by (cases n) simp_all
        with n o1 True show ?thesis
          unfolding copy_loop_step [OF len step] cs
          by (intro exI [of _ "Suc n"]) simp
      next
        case False
        with n o1 show ?thesis
          unfolding copy_loop_step [OF len step] cs
          by (intro exI [of _ "Suc n"]) simp
      qed
    qed
  qed
qed

subsection \<open>\<^verbatim>\<open>copy_data\<close>: the seek, then the loop\<close>

lemma copy_data_seeks:
  assumes "seekable f_in" "0 \<le> offset"
  shows "copy_data buf f_in f_out offset len =
           copy_loop buf (f_in\<lparr>pos := nat offset\<rparr>) f_out len"
  by (simp add: copy_data_def fseek_done [OF assms])

lemma copy_data_SeekFailed:
  assumes "\<not> (seekable f_in \<and> 0 \<le> offset)"
  shows "copy_data buf f_in f_out offset len =
           \<lparr>exit_path = SeekFailed, src = f_in, dst = f_out, diag = [Error_seeking_data]\<rparr>"
  by (simp add: copy_data_def fseek_refused [OF assms])

lemma copy_data_Copied:
  assumes "seekable f_in" "0 \<le> offset" "nat offset + len \<le> length (data f_in)"
    "len \<le> room f_out"
  shows "exit_path (copy_data buf f_in f_out offset len) = Copied
       \<and> diag (copy_data buf f_in f_out offset len) = []
       \<and> src (copy_data buf f_in f_out offset len) =
           f_in\<lparr>pos := nat offset + len, rlog := rlog f_in @ chunk_sizes len\<rparr>
       \<and> written (dst (copy_data buf f_in f_out offset len)) =
           written f_out @ take len (drop (nat offset) (data f_in))
       \<and> wlog (dst (copy_data buf f_in f_out offset len)) = wlog f_out @ chunk_sizes len
       \<and> room (dst (copy_data buf f_in f_out offset len)) = room f_out - len
       \<and> (0 < len \<longrightarrow> unflushed (dst (copy_data buf f_in f_out offset len))
                          \<le> device_free (dst (copy_data buf f_in f_out offset len)))"
proof -
  have "pos (f_in\<lparr>pos := nat offset\<rparr>) + len \<le> length (data (f_in\<lparr>pos := nat offset\<rparr>))"
    using assms(3) by simp
  from copy_loop_Copied [OF this assms(4), of buf] show ?thesis
    unfolding copy_data_seeks [OF assms(1,2)] by simp
qed

lemma copy_data_ShortRead_exit:
  assumes "exit_path (copy_data buf f_in f_out offset len) = ShortRead"
  shows "seekable f_in \<and> 0 \<le> offset \<and> 0 < len \<and> length (data f_in) < nat offset + len
       \<and> diag (copy_data buf f_in f_out offset len) = [Error_reading_data]
       \<and> written (dst (copy_data buf f_in f_out offset len)) =
           written f_out
             @ take (((length (data f_in) - nat offset) div sizeof_buf) * sizeof_buf)
                 (drop (nat offset) (data f_in))
       \<and> wlog (dst (copy_data buf f_in f_out offset len)) =
           wlog f_out @ replicate ((length (data f_in) - nat offset) div sizeof_buf) sizeof_buf
       \<and> rlog (src (copy_data buf f_in f_out offset len)) =
           rlog f_in @ replicate ((length (data f_in) - nat offset) div sizeof_buf) sizeof_buf
             @ [min (len - ((length (data f_in) - nat offset) div sizeof_buf) * sizeof_buf)
                  sizeof_buf]"
proof -
  have sk: "seekable f_in \<and> 0 \<le> offset"
  proof (rule ccontr)
    assume "\<not> (seekable f_in \<and> 0 \<le> offset)"
    from copy_data_SeekFailed [OF this, of buf f_out len] assms show False by simp
  qed
  then have eq: "copy_data buf f_in f_out offset len =
                   copy_loop buf (f_in\<lparr>pos := nat offset\<rparr>) f_out len"
    by (simp add: copy_data_seeks)
  from assms have "exit_path (copy_loop buf (f_in\<lparr>pos := nat offset\<rparr>) f_out len) = ShortRead"
    unfolding eq .
  from copy_loop_ShortRead_exit [OF this] sk show ?thesis
    unfolding eq by simp
qed

lemma copy_data_ShortRead:
  assumes "seekable f_in" "0 \<le> offset" "0 < len" "length (data f_in) < nat offset + len"
    "((length (data f_in) - nat offset) div sizeof_buf) * sizeof_buf \<le> room f_out"
  shows "exit_path (copy_data buf f_in f_out offset len) = ShortRead"
  using copy_loop_ShortRead [of len "f_in\<lparr>pos := nat offset\<rparr>" f_out buf] assms(3-5)
  unfolding copy_data_seeks [OF assms(1,2)] by simp

lemma copy_data_not_Copied:
  assumes "0 < len" "length (data f_in) < nat offset + len"
  shows "exit_path (copy_data buf f_in f_out offset len) \<noteq> Copied"
proof (cases "seekable f_in \<and> 0 \<le> offset")
  case True
  then have eq: "copy_data buf f_in f_out offset len =
                   copy_loop buf (f_in\<lparr>pos := nat offset\<rparr>) f_out len"
    by (simp add: copy_data_seeks)
  from copy_loop_not_Copied [of len "f_in\<lparr>pos := nat offset\<rparr>" buf f_out] assms
  show ?thesis
    unfolding eq by simp
next
  case False
  then show ?thesis
    by (simp add: copy_data_SeekFailed)
qed

lemma copy_data_rlog:
  "\<exists>rest. rlog (src (copy_data buf f_in f_out offset len)) = rlog f_in @ rest"
proof (cases "seekable f_in \<and> 0 \<le> offset")
  case True
  then have "copy_data buf f_in f_out offset len =
               copy_loop buf (f_in\<lparr>pos := nat offset\<rparr>) f_out len"
    by (simp add: copy_data_seeks)
  with copy_loop_logs [of len buf "f_in\<lparr>pos := nat offset\<rparr>" f_out] show ?thesis
    by auto
next
  case False
  then show ?thesis
    by (simp add: copy_data_SeekFailed)
qed

subsection \<open>The paths through \<^verbatim>\<open>main\<close>\<close>

lemma field_read:
  assumes "off + n \<le> m" "m \<le> length d"
  shows "field (take m d @ rest) off n = field d off n"
proof -
  have "off \<le> length (take m d)" "n \<le> length (take m d) - off"
    using assms by simp_all
  then have "take n (drop off (take m d @ rest)) = take n (drop off (take m d))"
    by simp
  also have "\<dots> = take n (drop off d)"
    using assms by (simp add: drop_take min_def)
  finally show ?thesis by (simp add: field_def)
qed

lemma header_of_bytes_read:
  assumes "sizeof_header \<le> length d"
  shows "header_of_bytes host (take sizeof_header d @ rest) = header_of_bytes host d"
proof -
  have "\<And>off n. off + n \<le> 64 \<Longrightarrow> field (take sizeof_header d @ rest) off n = field d off n"
    using assms field_read [of _ _ sizeof_header d rest] by (simp add: sizeof_header_def)
  then show ?thesis
    by (simp add: header_of_bytes_def)
qed

lemma memcmp_field:
  assumes "length b = n"
  shows "memcmp_differs (field d off n) b n = (field d off n \<noteq> b)"
  using assms by (simp add: memcmp_differs_def field_def)

lemma magic_lengths:
  "length EFI_PE_MSDOS_MAGIC = 2" "length ZIMG_MAGIC = 4" "length EFI_PE_LINUX_MAGIC = 4"
  by (simp_all add: EFI_PE_MSDOS_MAGIC_def ZIMG_MAGIC_def EFI_PE_LINUX_MAGIC_def)

lemma field_altered:
  assumes "off \<le> i" "i < off + n" "i < length d" "b \<noteq> d ! i"
  shows "field (d[i := b]) off n \<noteq> field d off n"
proof
  assume eq: "field (d[i := b]) off n = field d off n"
  have "i - off < n" "off + (i - off) = i" "i - off < length d - off"
    using assms by simp_all
  then have "field (d[i := b]) off n ! (i - off) = b" "field d off n ! (i - off) = d ! i"
    using assms(3) by (simp_all add: field_def)
  with eq assms(4) show False by simp
qed

lemma fread_header:
  assumes "pos f = 0" "sizeof_header \<le> length (data f)"
  shows "fread hdr0 sizeof_header f =
           (1, take sizeof_header (data f) @ drop sizeof_header hdr0,
            f\<lparr>pos := sizeof_header, rlog := rlog f @ [sizeof_header]\<rparr>)"
proof -
  have "0 < sizeof_header" by (simp add: sizeof_header_def)
  moreover have "pos f + sizeof_header \<le> length (data f)" using assms by simp
  ultimately show ?thesis
    using fread_whole [of sizeof_header f hdr0] assms(1) by simp
qed

lemma fread_header_short:
  assumes "pos f = 0" "length (data f) < sizeof_header"
  shows "fread hdr0 sizeof_header f =
           (0, data f @ drop (length (data f)) hdr0,
            f\<lparr>pos := length (data f), rlog := rlog f @ [sizeof_header]\<rparr>)"
  using fread_short [of f sizeof_header hdr0] assms by simp

lemma main_truncated:
  assumes "2 \<le> argc" "2 < argc \<longrightarrow> open_out \<noteq> None" "pos f = 0"
    "length (data f) < sizeof_header"
  shows "main host argc (Some f) open_out hdr0 buf0 =
           \<lparr>status = EXIT_FAILURE,
            fin_end = Some (fclose (f\<lparr>pos := length (data f),
                                      rlog := rlog f @ [sizeof_header]\<rparr>)),
            fout_end = (if 2 < argc then open_out else None),
            stderr = [Error_reading_EFI_zboot_header], stdout = []\<rparr>"
  using assms(1,2)
  by (cases "2 < argc") (auto simp add: main_def fread_header_short [OF assms(3,4)])

lemma main_bad_magic:
  assumes "2 \<le> argc" "2 < argc \<longrightarrow> open_out \<noteq> None" "pos f = 0"
    "sizeof_header \<le> length (data f)"
    "field (data f) 0 2 \<noteq> EFI_PE_MSDOS_MAGIC \<or> field (data f) 4 4 \<noteq> ZIMG_MAGIC
     \<or> field (data f) 56 4 \<noteq> EFI_PE_LINUX_MAGIC"
  shows "main host argc (Some f) open_out hdr0 buf0 =
           \<lparr>status = EXIT_FAILURE,
            fin_end = Some (f\<lparr>pos := sizeof_header, rlog := rlog f @ [sizeof_header]\<rparr>),
            fout_end = (if 2 < argc then open_out else None),
            stderr = [Error_not_a_kernel_EFI_image], stdout = []\<rparr>"
proof -
  have "memcmp_differs (msdos_magic (header_of_bytes host (data f))) EFI_PE_MSDOS_MAGIC 2
      \<or> memcmp_differs (zimg (header_of_bytes host (data f))) ZIMG_MAGIC 4
      \<or> memcmp_differs (linux_magic (header_of_bytes host (data f))) EFI_PE_LINUX_MAGIC 4"
    using assms(5) by (simp add: header_of_bytes_def memcmp_field magic_lengths)
  then show ?thesis
    using assms(1,2)
    by (cases "2 < argc")
      (auto simp add: main_def fread_header [OF assms(3,4)] header_of_bytes_read [OF assms(4)]
        Let_def)
qed

lemma main_good_magic:
  assumes "2 \<le> argc" "2 < argc \<longrightarrow> open_out \<noteq> None" "pos f = 0"
    "sizeof_header \<le> length (data f)"
    "field (data f) 0 2 = EFI_PE_MSDOS_MAGIC" "field (data f) 4 4 = ZIMG_MAGIC"
    "field (data f) 56 4 = EFI_PE_LINUX_MAGIC"
  shows "main host argc (Some f) open_out hdr0 buf0 =
           (let f_in1 = f\<lparr>pos := sizeof_header, rlog := rlog f @ [sizeof_header]\<rparr>;
                out = [\<lparr>compression = takeWhile (\<lambda>c. c \<noteq> 0) (field (data f) 24 32),
                        shown_offset = unat (load_le32 (field (data f) 8 4)),
                        shown_size = unat (load_le32 (field (data f) 12 4))\<rparr>]
            in if 2 < argc then
                 (let r = copy_data buf0 f_in1 (the open_out)
                            (uint (load_le32 (field (data f) 8 4)))
                            (unat (load_le32 (field (data f) 12 4)))
                  in \<lparr>status = EXIT_SUCCESS, fin_end = Some (fclose (src r)),
                      fout_end = Some (fclose_out (dst r)), stderr = diag r, stdout = out\<rparr>)
               else \<lparr>status = EXIT_SUCCESS, fin_end = Some (fclose f_in1), fout_end = None,
                     stderr = [], stdout = out\<rparr>)"
proof -
  have "\<not> (memcmp_differs (msdos_magic (header_of_bytes host (data f))) EFI_PE_MSDOS_MAGIC 2
      \<or> memcmp_differs (zimg (header_of_bytes host (data f))) ZIMG_MAGIC 4
      \<or> memcmp_differs (linux_magic (header_of_bytes host (data f))) EFI_PE_LINUX_MAGIC 4)"
    using assms(5-7) by (simp add: header_of_bytes_def memcmp_differs_def)
  moreover have "payload_offset (header_of_bytes host (data f)) = load_u32 host (field (data f) 8 4)"
    "payload_size (header_of_bytes host (data f)) = load_u32 host (field (data f) 12 4)"
    "compression_type (header_of_bytes host (data f)) = field (data f) 24 32"
    by (simp_all add: header_of_bytes_def)
  ultimately show ?thesis
    using assms(1,2)
    by (cases "2 < argc")
      (auto simp add: main_def fread_header [OF assms(3,4)] header_of_bytes_read [OF assms(4)]
        Let_def fixendian_load_u32)
qed

text \<open>The status is \<^verbatim>\<open>EXIT_SUCCESS\<close> exactly when the magic fields were accepted.\<close>

lemma main_status:
  assumes "2 \<le> argc" "2 < argc \<longrightarrow> open_out \<noteq> None" "pos f = 0"
  shows "status (main host argc (Some f) open_out hdr0 buf0) =
           (if sizeof_header \<le> length (data f) \<and> field (data f) 0 2 = EFI_PE_MSDOS_MAGIC
               \<and> field (data f) 4 4 = ZIMG_MAGIC \<and> field (data f) 56 4 = EFI_PE_LINUX_MAGIC
            then EXIT_SUCCESS else EXIT_FAILURE)"
proof (cases "sizeof_header \<le> length (data f)")
  case False
  then have "length (data f) < sizeof_header" by simp
  from main_truncated [OF assms this] False show ?thesis by simp
next
  case True
  show ?thesis
  proof (cases "field (data f) 0 2 = EFI_PE_MSDOS_MAGIC \<and> field (data f) 4 4 = ZIMG_MAGIC
               \<and> field (data f) 56 4 = EFI_PE_LINUX_MAGIC")
    case good: True
    then show ?thesis
      using main_good_magic [OF assms True, of host hdr0 buf0] True by (simp add: Let_def)
  next
    case False
    then have "field (data f) 0 2 \<noteq> EFI_PE_MSDOS_MAGIC \<or> field (data f) 4 4 \<noteq> ZIMG_MAGIC
     \<or> field (data f) 56 4 \<noteq> EFI_PE_LINUX_MAGIC" by blast
    from main_bad_magic [OF assms True this, of host hdr0 buf0] False show ?thesis by auto
  qed
qed

subsection \<open>The sample images\<close>

lemma sample_fields:
  "length sample_image = 68" "length cut_image = 66" "length mx_image = 68"
  "field sample_image 0 2 = EFI_PE_MSDOS_MAGIC" "field sample_image 4 4 = ZIMG_MAGIC"
  "field sample_image 56 4 = EFI_PE_LINUX_MAGIC"
  "field cut_image 0 2 = EFI_PE_MSDOS_MAGIC" "field cut_image 4 4 = ZIMG_MAGIC"
  "field cut_image 56 4 = EFI_PE_LINUX_MAGIC"
  "field mx_image 0 2 \<noteq> EFI_PE_MSDOS_MAGIC"
  by (simp_all add: sample_image_def cut_image_def mx_image_def sample_header_def field_def
      EFI_PE_MSDOS_MAGIC_def ZIMG_MAGIC_def EFI_PE_LINUX_MAGIC_def)

lemma chunk_fields:
  "length chunk_image = 16448"
  "field chunk_image 0 2 = EFI_PE_MSDOS_MAGIC" "field chunk_image 4 4 = ZIMG_MAGIC"
  "field chunk_image 56 4 = EFI_PE_LINUX_MAGIC"
  "load_le32 (field chunk_image 8 4) = 64" "load_le32 (field chunk_image 12 4) = 16384"
  "drop 64 chunk_image = replicate 16384 0x5A"
  by (simp_all add: chunk_image_def chunk_header_def field_def load_le32_def
      EFI_PE_MSDOS_MAGIC_def ZIMG_MAGIC_def EFI_PE_LINUX_MAGIC_def)

lemma sample_payload:
  "load_le32 (field sample_image 8 4) = 64" "load_le32 (field sample_image 12 4) = 4"
  "load_le32 (field cut_image 8 4) = 64" "load_le32 (field cut_image 12 4) = 4"
  "takeWhile (\<lambda>c. c \<noteq> 0) (field sample_image 24 32) = [0x67, 0x7A, 0x69, 0x70]"
  "takeWhile (\<lambda>c. c \<noteq> 0) (field cut_image 24 32) = [0x67, 0x7A, 0x69, 0x70]"
  by (simp_all add: sample_image_def cut_image_def sample_header_def field_def load_le32_def)

text \<open>
  A write smaller than the buffer of the stream is not refused by a full device: the four
  payload bytes of the sample image stay in the buffer, the copy ends without a message,
  and they are lost when \<^verbatim>\<open>main\<close> closes the stream.
\<close>

lemma small_payload_on_full_device:
  "status (main LittleEndian 3 (Some (regular_file sample_image)) (Some (new_output 0)) [] [])
     = EXIT_SUCCESS
   \<and> stderr (main LittleEndian 3 (Some (regular_file sample_image)) (Some (new_output 0)) [] [])
     = []
   \<and> map_option written
         (fout_end (main LittleEndian 3 (Some (regular_file sample_image)) (Some (new_output 0))
                      [] []))
     = Some []"
proof -
  let ?f1 = "(regular_file sample_image)\<lparr>pos := sizeof_header,
               rlog := rlog (regular_file sample_image) @ [sizeof_header]\<rparr>"
  have ok: "pos (regular_file sample_image) = 0"
    "sizeof_header \<le> length (data (regular_file sample_image))"
    "field (data (regular_file sample_image)) 0 2 = EFI_PE_MSDOS_MAGIC"
    "field (data (regular_file sample_image)) 4 4 = ZIMG_MAGIC"
    "field (data (regular_file sample_image)) 56 4 = EFI_PE_LINUX_MAGIC"
    by (simp_all add: regular_file_def sample_fields sizeof_header_def)
  have cp: "diag (copy_data [] ?f1 (new_output 0) (uint (64 :: u32)) (unat (4 :: u32))) = []"
    "written (fclose_out (dst (copy_data [] ?f1 (new_output 0) (uint (64 :: u32))
                                 (unat (4 :: u32))))) = []"
    by (simp_all add: regular_file_def new_output_def sends_blocks_def sizeof_header_def
        sizeof_buf_def copy_data_def fseek_def copy_loop_unfold copy_loop_zero fread_def
        fwrite_def fclose_out_def sample_image_def sample_header_def)
  from main_good_magic [OF _ _ ok, of 3 "Some (new_output 0)" LittleEndian "[]" "[]"] cp
  show ?thesis
    by (simp add: Let_def regular_file_def sample_payload)
qed

section \<open>The specification, statement by statement\<close>

subsection \<open>The copy\<close>

text \<open>
  Claim C1, as stated, asks that the copy succeeds for every source and sink once the
  source holds \<open>offset + length\<close> bytes. It does not when the sink refuses a write or
  the source cannot seek: here the source holds the 20000 bytes asked for, and the copy
  ends with the write error on a full device and with the seek error on a pipe, the sink
  staying empty.
\<close>

theorem copy_data_full_sink_counterexample:
  "nat 0 + 20000 \<le> length (data (regular_file (replicate 20000 0x5A)))
   \<and> exit_path (copy_data [] (regular_file (replicate 20000 0x5A)) (new_output 0) 0 20000)
       = WriteFailed
   \<and> written (dst (copy_data [] (regular_file (replicate 20000 0x5A)) (new_output 0) 0 20000))
       = []
   \<and> take 20000 (drop (nat 0) (replicate 20000 (0x5A :: byte))) \<noteq> []
   \<and> nat 0 + 20000 \<le> length (data (pipe_input (replicate 20000 0x5A)))
   \<and> exit_path (copy_data [] (pipe_input (replicate 20000 0x5A)) (new_output 20000) 0 20000)
       = SeekFailed
   \<and> written (dst (copy_data [] (pipe_input (replicate 20000 0x5A)) (new_output 20000) 0 20000))
       = []"
  by (simp add: copy_data_def fseek_def copy_loop_unfold fread_def fwrite_def Let_def
      regular_file_def pipe_input_def new_output_def sends_blocks_def sizeof_buf_def)

text \<open>
  Claim C1, amended. When the source can seek, the offset is not negative, the source
  holds \<open>offset + len\<close> bytes and the sink has room for \<open>len\<close> more bytes, the copy
  takes the normal way out without a message, and the sink has taken exactly the bytes
  \<open>offset ..< offset + len\<close> of the source after what it held, whatever the buffer
  \<^verbatim>\<open>buf\<close> held before. Closing the sink afterwards, as \<^verbatim>\<open>main\<close> does, brings
  all of it to the device: the closed sink holds what it would have held when closed before
  the copy, followed by that range. The transfer is made of the chunks
  \<open>chunk_sizes len\<close>: one read and one write for each, none larger than 16384 bytes,
  \<open>len\<close> bytes in all.
\<close>

theorem copy_data_copies_range:
  assumes "seekable f_in" "0 \<le> offset" "nat offset + len \<le> length (data f_in)"
    "len \<le> room f_out"
  shows "exit_path (copy_data buf f_in f_out offset len) = Copied
       \<and> diag (copy_data buf f_in f_out offset len) = []
       \<and> written (dst (copy_data buf f_in f_out offset len)) =
           written f_out @ take len (drop (nat offset) (data f_in))
       \<and> written (fclose_out (dst (copy_data buf f_in f_out offset len))) =
           written (fclose_out f_out) @ take len (drop (nat offset) (data f_in))
       \<and> rlog (src (copy_data buf f_in f_out offset len)) = rlog f_in @ chunk_sizes len
       \<and> wlog (dst (copy_data buf f_in f_out offset len)) = wlog f_out @ chunk_sizes len
       \<and> (\<forall>c \<in> set (chunk_sizes len). 0 < c \<and> c \<le> 16384)
       \<and> sum_list (chunk_sizes len) = len"
proof -
  note ok = copy_data_Copied [OF assms, of buf]
  have closed: "written (fclose_out (dst (copy_data buf f_in f_out offset len))) =
           written (fclose_out f_out) @ take len (drop (nat offset) (data f_in))"
  proof (cases "len = 0")
    case True
    have "dst (copy_data buf f_in f_out offset 0) = f_out"
      by (simp add: copy_data_seeks [OF assms(1,2)] copy_loop_zero)
    with True show ?thesis by simp
  next
    case False
    then have len: "0 < len" by simp
    with assms(4) have "unflushed f_out \<le> device_free f_out"
      by (simp add: room_def)
    then have before: "written (fclose_out f_out) = written f_out"
      by (rule fclose_out_kept)
    from ok len have "unflushed (dst (copy_data buf f_in f_out offset len))
                        \<le> device_free (dst (copy_data buf f_in f_out offset len))"
      by simp
    then have "written (fclose_out (dst (copy_data buf f_in f_out offset len)))
                 = written (dst (copy_data buf f_in f_out offset len))"
      by (rule fclose_out_kept)
    with ok before show ?thesis by simp
  qed
  have "\<forall>c \<in> set (chunk_sizes len). 0 < c \<and> c \<le> 16384"
    using chunk_sizes_bound [of _ len] by (simp add: sizeof_buf_def)
  with ok closed show ?thesis
    by (simp add: sum_list_chunk_sizes)
qed

theorem copy_data_copies_range_witness:
  "exit_path (copy_data [] (regular_file (replicate 100 0 @ replicate 20000 0x5A @ [1, 2, 3]))
                (new_output 50000) 100 20000)
     = Copied
   \<and> written (dst (copy_data [] (regular_file (replicate 100 0 @ replicate 20000 0x5A @ [1, 2, 3]))
                     (new_output 50000) 100 20000))
     = replicate 20000 0x5A
   \<and> written (fclose_out
        (dst (copy_data [] (regular_file (replicate 100 0 @ replicate 20000 0x5A @ [1, 2, 3]))
                (new_output 50000) 100 20000)))
     = replicate 20000 0x5A
   \<and> wlog (dst (copy_data [] (regular_file (replicate 100 0 @ replicate 20000 0x5A @ [1, 2, 3]))
                  (new_output 50000) 100 20000))
     = [16384, 3616]"
proof -
  have hyp: "seekable (regular_file (replicate 100 0 @ replicate 20000 0x5A @ [1, 2, 3]))"
    "nat 100 + 20000
       \<le> length (data (regular_file (replicate 100 0 @ replicate 20000 0x5A @ [1, 2, 3])))"
    "20000 \<le> room (new_output 50000)"
    by (simp_all add: regular_file_def new_output_def room_def)
  have ev: "written (new_output 50000) = []" "written (fclose_out (new_output 50000)) = []"
    "wlog (new_output 50000) = []" "chunk_sizes 20000 = [16384, 3616]"
    "take 20000 (drop (nat 100)
       (data (regular_file (replicate 100 0 @ replicate 20000 0x5A @ [1, 2, 3]))))
     = replicate 20000 0x5A"
    by (simp_all add: regular_file_def new_output_def fclose_out_def chunk_sizes_def
        sizeof_buf_def)
  from copy_data_copies_range [OF hyp(1) _ hyp(2,3), of "[]"] ev show ?thesis
    by simp
qed

text \<open>
  Claim C5, as stated, asks for the read error whenever the source ends before
  \<open>offset + length\<close>. With length 0 and an offset past the end the copy succeeds (the
  seek is allowed and nothing is read); with a sink that refuses the first chunk the copy
  ends with the write error; on a pipe it ends with the seek error.
\<close>

theorem copy_data_short_source_counterexample:
  "length (data (regular_file [1, 2])) < nat 5 + 0
   \<and> exit_path (copy_data [] (regular_file [1, 2]) (new_output 10) 5 0) = Copied
   \<and> length (data (regular_file (replicate 20000 1))) < nat 0 + 30000
   \<and> exit_path (copy_data [] (regular_file (replicate 20000 1)) (new_output 0) 0 30000)
       = WriteFailed
   \<and> length (data (pipe_input [1, 2])) < nat 0 + 4
   \<and> exit_path (copy_data [] (pipe_input [1, 2]) (new_output 10) 0 4) = SeekFailed"
  by (simp add: copy_data_def fseek_def copy_loop_zero copy_loop_unfold fread_def fwrite_def
      Let_def regular_file_def pipe_input_def new_output_def sends_blocks_def sizeof_buf_def)

text \<open>
  Claim C5, amended. When \<open>len\<close> is positive and the source ends before
  \<open>offset + len\<close>, the copy never takes the normal way out. When moreover the seek
  succeeds and the sink accepts the whole chunks that the source still holds, the copy
  ends with the read error and its message, and the sink keeps what was written before the
  failing read: its old content followed by those whole chunks.
\<close>

theorem copy_data_short_source:
  assumes "0 < len" "length (data f_in) < nat offset + len"
  shows "exit_path (copy_data buf f_in f_out offset len) \<noteq> Copied
       \<and> (seekable f_in \<and> 0 \<le> offset
            \<and> ((length (data f_in) - nat offset) div sizeof_buf) * sizeof_buf \<le> room f_out
          \<longrightarrow> exit_path (copy_data buf f_in f_out offset len) = ShortRead
              \<and> diag (copy_data buf f_in f_out offset len) = [Error_reading_data]
              \<and> written (dst (copy_data buf f_in f_out offset len)) =
                  written f_out
                    @ take (((length (data f_in) - nat offset) div sizeof_buf) * sizeof_buf)
                        (drop (nat offset) (data f_in)))"
proof (intro conjI impI)
  show "exit_path (copy_data buf f_in f_out offset len) \<noteq> Copied"
    using assms by (rule copy_data_not_Copied)
next
  assume ok: "seekable f_in \<and> 0 \<le> offset
    \<and> ((length (data f_in) - nat offset) div sizeof_buf) * sizeof_buf \<le> room f_out"
  then have sk: "seekable f_in" and off: "0 \<le> offset"
    and rm: "((length (data f_in) - nat offset) div sizeof_buf) * sizeof_buf \<le> room f_out"
    by simp_all
  show sr: "exit_path (copy_data buf f_in f_out offset len) = ShortRead"
    by (rule copy_data_ShortRead [OF sk off assms rm])
  note ex = copy_data_ShortRead_exit [OF sr]
  show "diag (copy_data buf f_in f_out offset len) = [Error_reading_data]"
    using ex by simp
  show "written (dst (copy_data buf f_in f_out offset len)) =
          written f_out
            @ take (((length (data f_in) - nat offset) div sizeof_buf) * sizeof_buf)
                (drop (nat offset) (data f_in))"
    using ex by simp
qed

theorem copy_data_short_source_witness:
  "exit_path (copy_data [] (regular_file (replicate 20000 0x5A)) (new_output 50000) 0 30000)
     = ShortRead
   \<and> written (dst (copy_data [] (regular_file (replicate 20000 0x5A)) (new_output 50000)
                     0 30000))
     = replicate 16384 0x5A"
  using copy_data_short_source [of 30000 "regular_file (replicate 20000 0x5A)" 0
      "[]" "new_output 50000"]
  by (simp add: regular_file_def new_output_def room_def sizeof_buf_def)

text \<open>
  Claim C7, as stated, asks for success with length 0 on every source. The seek comes
  before the loop, so on a source that cannot seek the copy fails with the seek error.
\<close>

theorem copy_data_zero_length_counterexample:
  "exit_path (copy_data [] (pipe_input [1, 2, 3]) (new_output 10) 0 0) = SeekFailed
   \<and> diag (copy_data [] (pipe_input [1, 2, 3]) (new_output 10) 0 0) = [Error_seeking_data]"
  by (simp add: copy_data_def fseek_def pipe_input_def)

text \<open>
  Claim C7, amended. With length 0 the copy makes no read call and no write call and
  leaves the sink as it was; it seeks, and it takes the normal way out exactly when the
  seek succeeds (a source that can seek and an offset that is not negative), failing with
  the seek error otherwise.
\<close>

theorem copy_data_zero_length:
  "rlog (src (copy_data buf f_in f_out offset 0)) = rlog f_in
   \<and> dst (copy_data buf f_in f_out offset 0) = f_out
   \<and> exit_path (copy_data buf f_in f_out offset 0) =
       (if seekable f_in \<and> 0 \<le> offset then Copied else SeekFailed)
   \<and> diag (copy_data buf f_in f_out offset 0) =
       (if seekable f_in \<and> 0 \<le> offset then [] else [Error_seeking_data])"
  by (simp add: copy_data_def fseek_def copy_loop_zero)

text \<open>
  Claim C9. The loop terminates on every input: every argument lies in the domain of the
  recursion, for every buffer, source, sink and length. An iteration with \<open>len\<close> bytes
  left transfers \<open>min len 16384\<close> bytes, a positive number, and leaves strictly fewer.
  The loop makes no more read calls than the transfer has chunks, and when every read and
  write succeeds it makes exactly these, \<open>len\<close> bytes in all, and takes the normal way
  out.
\<close>

theorem copy_loop_terminates:
  "copy_loop_dom (buf, f_in, f_out, len)
   \<and> (0 < len \<longrightarrow> 0 < min len sizeof_buf \<and> min len sizeof_buf \<le> 16384
                  \<and> len - min len sizeof_buf < len)
   \<and> length (rlog (src (copy_loop buf f_in f_out len)))
       \<le> length (rlog f_in) + length (chunk_sizes len)
   \<and> length (chunk_sizes len) = len div 16384 + (if len mod 16384 = 0 then 0 else 1)
   \<and> (pos f_in + len \<le> length (data f_in) \<and> len \<le> room f_out
        \<longrightarrow> exit_path (copy_loop buf f_in f_out len) = Copied
            \<and> rlog (src (copy_loop buf f_in f_out len)) = rlog f_in @ chunk_sizes len
            \<and> wlog (dst (copy_loop buf f_in f_out len)) = wlog f_out @ chunk_sizes len
            \<and> sum_list (chunk_sizes len) = len)"
proof (intro conjI impI)
  have "All copy_loop_dom"
    by (relation "measure (\<lambda>(buf, f_in, f_out, len). len)") (auto simp: sizeof_buf_def)
  then show "copy_loop_dom (buf, f_in, f_out, len)" ..
next
  assume "0 < len"
  then show "0 < min len sizeof_buf" "min len sizeof_buf \<le> 16384"
    "len - min len sizeof_buf < len"
    by (simp_all add: sizeof_buf_def)
next
  from copy_loop_logs [of len buf f_in f_out]
  show "length (rlog (src (copy_loop buf f_in f_out len)))
          \<le> length (rlog f_in) + length (chunk_sizes len)"
    by auto
next
  show "length (chunk_sizes len) = len div 16384 + (if len mod 16384 = 0 then 0 else 1)"
    using length_chunk_sizes [of len] by (simp add: sizeof_buf_def)
next
  assume ok: "pos f_in + len \<le> length (data f_in) \<and> len \<le> room f_out"
  then have rd: "pos f_in + len \<le> length (data f_in)" and wr: "len \<le> room f_out"
    by simp_all
  note eq = copy_loop_Copied [OF rd wr, of buf]
  show "exit_path (copy_loop buf f_in f_out len) = Copied"
    "rlog (src (copy_loop buf f_in f_out len)) = rlog f_in @ chunk_sizes len"
    "wlog (dst (copy_loop buf f_in f_out len)) = wlog f_out @ chunk_sizes len"
    using eq by simp_all
  show "sum_list (chunk_sizes len) = len"
    by (rule sum_list_chunk_sizes)
qed

theorem copy_loop_terminates_witness:
  "copy_loop_dom ([], regular_file (replicate 40000 7), new_output 50000, 40000)
   \<and> 0 < min 40000 sizeof_buf \<and> 40000 - min 40000 sizeof_buf < (40000 :: nat)
   \<and> exit_path (copy_loop [] (regular_file (replicate 40000 7)) (new_output 50000) 40000)
       = Copied
   \<and> rlog (src (copy_loop [] (regular_file (replicate 40000 7)) (new_output 50000) 40000))
       = [16384, 16384, 7232]"
proof -
  have ok: "pos (regular_file (replicate 40000 7)) + 40000
              \<le> length (data (regular_file (replicate 40000 7)))
            \<and> 40000 \<le> room (new_output 50000)"
    by (simp add: regular_file_def new_output_def room_def)
  have cs: "chunk_sizes 40000 = [16384, 16384, 7232]"
    by (simp add: chunk_sizes_def sizeof_buf_def numeral_2_eq_2)
  have "rlog (regular_file (replicate 40000 7)) = []"
    by (simp add: regular_file_def)
  with copy_loop_terminates [of "[]" "regular_file (replicate 40000 7)" "new_output 50000"
      40000] ok cs
  show ?thesis
    by (simp add: sizeof_buf_def)
qed

text \<open>
  Claim C10. When the copy ends with the read error, the sink holds its old content
  followed by the first \<open>k\<close> whole chunks of the requested range and nothing else, where
  \<open>k\<close> is the number of whole buffers the source holds from the offset on: \<open>k\<close> writes
  of 16384 bytes each, every one after the read of the same chunk, and one more read, the
  failing one, with no write after it. These \<open>k\<close> chunks are fewer bytes than were asked
  for, and the result does not depend on what the buffer held on entry.
\<close>

theorem copy_data_ShortRead_sink:
  assumes "exit_path (copy_data buf f_in f_out offset len) = ShortRead"
  shows "written (dst (copy_data buf f_in f_out offset len)) =
           written f_out
             @ take (((length (data f_in) - nat offset) div sizeof_buf) * sizeof_buf)
                 (drop (nat offset) (data f_in))
       \<and> length (take (((length (data f_in) - nat offset) div sizeof_buf) * sizeof_buf)
                   (drop (nat offset) (data f_in)))
           = ((length (data f_in) - nat offset) div sizeof_buf) * sizeof_buf
       \<and> ((length (data f_in) - nat offset) div sizeof_buf) * sizeof_buf < len
       \<and> wlog (dst (copy_data buf f_in f_out offset len)) =
           wlog f_out @ replicate ((length (data f_in) - nat offset) div sizeof_buf) sizeof_buf
       \<and> rlog (src (copy_data buf f_in f_out offset len)) =
           rlog f_in @ replicate ((length (data f_in) - nat offset) div sizeof_buf) sizeof_buf
             @ [min (len - ((length (data f_in) - nat offset) div sizeof_buf) * sizeof_buf)
                  sizeof_buf]"
proof -
  let ?k = "(length (data f_in) - nat offset) div sizeof_buf"
  note ex = copy_data_ShortRead_exit [OF assms]
  then have len: "0 < len" and short: "length (data f_in) < nat offset + len"
    by simp_all
  have le: "?k * sizeof_buf \<le> length (data f_in) - nat offset"
    by (rule whole_chunks_le)
  then have "length (take (?k * sizeof_buf) (drop (nat offset) (data f_in))) = ?k * sizeof_buf"
    by simp
  moreover have "?k * sizeof_buf < len"
  proof -
    have "length (data f_in) - nat offset < len" using short len by linarith
    with le show ?thesis by (rule le_less_trans)
  qed
  ultimately show ?thesis
    using ex by simp
qed

theorem copy_data_ShortRead_sink_witness:
  "exit_path (copy_data [] (regular_file (replicate 20000 0x5A)) (new_output 50000) 0 30000)
     = ShortRead
   \<and> written (dst (copy_data [] (regular_file (replicate 20000 0x5A)) (new_output 50000)
                     0 30000))
     = replicate 16384 0x5A
   \<and> wlog (dst (copy_data [] (regular_file (replicate 20000 0x5A)) (new_output 50000)
                  0 30000))
     = [16384]
   \<and> rlog (src (copy_data [] (regular_file (replicate 20000 0x5A)) (new_output 50000)
                  0 30000))
     = [16384, 13616]"
proof -
  have sr: "exit_path (copy_data [] (regular_file (replicate 20000 0x5A)) (new_output 50000)
                         0 30000) = ShortRead"
    by (rule copy_data_ShortRead)
      (simp_all add: regular_file_def new_output_def room_def sizeof_buf_def)
  from copy_data_ShortRead_sink [OF sr] sr show ?thesis
    by (simp add: regular_file_def new_output_def sizeof_buf_def)
qed

subsection \<open>The header\<close>

text \<open>
  Claim C4. Decoding the four-byte little-endian encoding of any unsigned 32-bit value
  gives the value back on a little-endian and on a big-endian host, and this is how the
  program decodes its integer fields. Take an accepted image whose bytes 8..11 are the
  little-endian encoding of \<open>x\<close> and whose bytes 12..15 are that of \<open>y\<close>: on either
  host \<^verbatim>\<open>main\<close> prints \<open>x\<close> as the payload offset and \<open>y\<close> as the payload size
  and, when an output was named, calls \<^verbatim>\<open>copy_data\<close> with the offset \<open>x\<close> and the
  length \<open>y\<close>. The conversion behind it: the host loads the four bytes in its own
  order and \<^verbatim>\<open>fixendian\<close> turns the result into their little-endian reading, for
  \<^verbatim>\<open>payload_offset\<close>, \<^verbatim>\<open>payload_size\<close> and \<^verbatim>\<open>pe_header_offset\<close> at the
  byte offsets 8, 12 and 60 (the program converts the last one too and never reads it
  afterwards), and the little-endian reading of the encoding of \<open>z\<close> is \<open>z\<close>.
\<close>

theorem main_decodes_le_fields:
  assumes "2 \<le> argc" "2 < argc \<longrightarrow> open_out \<noteq> None" "pos f = 0"
    "sizeof_header \<le> length (data f)"
    "field (data f) 0 2 = EFI_PE_MSDOS_MAGIC" "field (data f) 4 4 = ZIMG_MAGIC"
    "field (data f) 56 4 = EFI_PE_LINUX_MAGIC"
    "field (data f) 8 4 = encode_le x" "field (data f) 12 4 = encode_le y"
  shows "stdout (main host argc (Some f) open_out hdr0 buf0) =
           [\<lparr>compression = takeWhile (\<lambda>c. c \<noteq> 0) (field (data f) 24 32),
             shown_offset = unat x, shown_size = unat y\<rparr>]
       \<and> (2 < argc \<longrightarrow>
            fin_end (main host argc (Some f) open_out hdr0 buf0) =
              Some (fclose (src (copy_data buf0
                (f\<lparr>pos := sizeof_header, rlog := rlog f @ [sizeof_header]\<rparr>)
                (the open_out) (uint x) (unat y))))
          \<and> fout_end (main host argc (Some f) open_out hdr0 buf0) =
              Some (fclose_out (dst (copy_data buf0
                (f\<lparr>pos := sizeof_header, rlog := rlog f @ [sizeof_header]\<rparr>)
                (the open_out) (uint x) (unat y))))
          \<and> stderr (main host argc (Some f) open_out hdr0 buf0) =
              diag (copy_data buf0
                (f\<lparr>pos := sizeof_header, rlog := rlog f @ [sizeof_header]\<rparr>)
                (the open_out) (uint x) (unat y)))
       \<and> fixendian host (load_u32 host (encode_le z)) = z
       \<and> fixendian host (payload_offset (header_of_bytes host bs)) = load_le32 (field bs 8 4)
       \<and> fixendian host (payload_size (header_of_bytes host bs)) = load_le32 (field bs 12 4)
       \<and> fixendian host (pe_header_offset (header_of_bytes host bs))
           = load_le32 (field bs 60 4)
       \<and> load_le32 (encode_le z) = z"
proof -
  note run = main_good_magic [OF assms(1-7), of host hdr0 buf0]
  have dec: "load_le32 (field (data f) 8 4) = x" "load_le32 (field (data f) 12 4) = y"
    unfolding assms(8,9) by (rule load_le32_encode_le)+
  have out: "stdout (main host argc (Some f) open_out hdr0 buf0) =
           [\<lparr>compression = takeWhile (\<lambda>c. c \<noteq> 0) (field (data f) 24 32),
             shown_offset = unat x, shown_size = unat y\<rparr>]"
    unfolding run dec by (simp add: Let_def)
  have copy: "2 < argc \<longrightarrow>
            fin_end (main host argc (Some f) open_out hdr0 buf0) =
              Some (fclose (src (copy_data buf0
                (f\<lparr>pos := sizeof_header, rlog := rlog f @ [sizeof_header]\<rparr>)
                (the open_out) (uint x) (unat y))))
          \<and> fout_end (main host argc (Some f) open_out hdr0 buf0) =
              Some (fclose_out (dst (copy_data buf0
                (f\<lparr>pos := sizeof_header, rlog := rlog f @ [sizeof_header]\<rparr>)
                (the open_out) (uint x) (unat y))))
          \<and> stderr (main host argc (Some f) open_out hdr0 buf0) =
              diag (copy_data buf0
                (f\<lparr>pos := sizeof_header, rlog := rlog f @ [sizeof_header]\<rparr>)
                (the open_out) (uint x) (unat y))"
    unfolding run dec by (simp add: Let_def)
  from out copy show ?thesis
    by (simp add: fixendian_load_u32 load_le32_encode_le header_of_bytes_def)
qed

theorem main_decodes_le_fields_witness:
  "stdout (main BigEndian 3 (Some (regular_file sample_image)) (Some (new_output 100)) [] [])
     = [\<lparr>compression = [0x67, 0x7A, 0x69, 0x70], shown_offset = 64, shown_size = 4\<rparr>]
   \<and> stdout (main LittleEndian 3 (Some (regular_file sample_image)) (Some (new_output 100)) [] [])
     = [\<lparr>compression = [0x67, 0x7A, 0x69, 0x70], shown_offset = 64, shown_size = 4\<rparr>]
   \<and> stderr (main BigEndian 3 (Some (regular_file sample_image)) (Some (new_output 100)) [] [])
     = []
   \<and> map_option written
         (fout_end (main BigEndian 3 (Some (regular_file sample_image)) (Some (new_output 100))
                      [] []))
     = Some [0xAA, 0xBB, 0xCC, 0xDD]"
proof -
  let ?f1 = "(regular_file sample_image)\<lparr>pos := sizeof_header,
               rlog := rlog (regular_file sample_image) @ [sizeof_header]\<rparr>"
  have ok: "pos (regular_file sample_image) = 0"
    "sizeof_header \<le> length (data (regular_file sample_image))"
    "field (data (regular_file sample_image)) 0 2 = EFI_PE_MSDOS_MAGIC"
    "field (data (regular_file sample_image)) 4 4 = ZIMG_MAGIC"
    "field (data (regular_file sample_image)) 56 4 = EFI_PE_LINUX_MAGIC"
    by (simp_all add: regular_file_def sample_fields sizeof_header_def)
  have enc: "field (data (regular_file sample_image)) 8 4 = encode_le 64"
    "field (data (regular_file sample_image)) 12 4 = encode_le 4"
    by (simp_all add: regular_file_def sample_image_def sample_header_def field_def
        encode_le_def drop_bit_eq_div)
  have lab: "takeWhile (\<lambda>c. c \<noteq> 0) (field (data (regular_file sample_image)) 24 32)
               = [0x67, 0x7A, 0x69, 0x70]"
    by (simp add: regular_file_def sample_payload)
  have cp: "seekable ?f1" "nat (uint (64 :: u32)) + unat (4 :: u32) \<le> length (data ?f1)"
    "unat (4 :: u32) \<le> room (new_output 100)" "0 < unat (4 :: u32)"
    by (simp_all add: regular_file_def new_output_def room_def sample_fields)
  note copied = copy_data_Copied [OF cp(1) _ cp(2,3), of "[]"]
  have kept: "written (fclose_out (dst (copy_data [] ?f1 (new_output 100) (uint (64 :: u32))
                                         (unat (4 :: u32)))))
                = [0xAA, 0xBB, 0xCC, 0xDD]"
  proof -
    from copied cp(4)
    have "unflushed (dst (copy_data [] ?f1 (new_output 100) (uint (64 :: u32)) (unat (4 :: u32))))
            \<le> device_free (dst (copy_data [] ?f1 (new_output 100) (uint (64 :: u32))
                                     (unat (4 :: u32))))"
      by simp
    from fclose_out_kept(1) [OF this] copied show ?thesis
      by (simp add: regular_file_def new_output_def sample_image_def sample_header_def)
  qed
  from copied have quiet: "diag (copy_data [] ?f1 (new_output 100) (uint (64 :: u32))
                                   (unat (4 :: u32))) = []"
    by simp
  note be = main_decodes_le_fields [where host = BigEndian and argc = 3
      and open_out = "Some (new_output 100)" and f = "regular_file sample_image"
      and ?hdr0.0 = "[]" and ?buf0.0 = "[]", OF _ _ ok enc]
  note le = main_decodes_le_fields [where host = LittleEndian and argc = 3
      and open_out = "Some (new_output 100)" and f = "regular_file sample_image"
      and ?hdr0.0 = "[]" and ?buf0.0 = "[]", OF _ _ ok enc]
  from be le lab kept quiet show ?thesis
    by simp
qed

text \<open>
  Claim C2. Take a run that reaches the header check: at least the input argument, the
  input opened at position 0 with a whole header in it, and the output opened if one was
  named. If the bytes 0..1 differ from \<^verbatim>\<open>MZ\<close>, or the bytes 4..7 from
  \<^verbatim>\<open>zimg\<close>, or the bytes 56..59 from the Linux magic, the program fails with the
  message that the input is not a kernel EFI image, prints no report and leaves the output
  as it was opened. The program never exits with success unless all three fields match.
  In particular, altering any single byte of the three magic fields of an accepted image
  makes the program reject it.
\<close>

theorem main_rejects_bad_magic:
  assumes "2 \<le> argc" "2 < argc \<longrightarrow> open_out \<noteq> None" "pos f = 0"
    "sizeof_header \<le> length (data f)"
  shows "(field (data f) 0 2 \<noteq> EFI_PE_MSDOS_MAGIC \<or> field (data f) 4 4 \<noteq> ZIMG_MAGIC
            \<or> field (data f) 56 4 \<noteq> EFI_PE_LINUX_MAGIC
          \<longrightarrow> status (main host argc (Some f) open_out hdr0 buf0) = EXIT_FAILURE
              \<and> stderr (main host argc (Some f) open_out hdr0 buf0)
                  = [Error_not_a_kernel_EFI_image]
              \<and> stdout (main host argc (Some f) open_out hdr0 buf0) = []
              \<and> fout_end (main host argc (Some f) open_out hdr0 buf0)
                  = (if 2 < argc then open_out else None))
       \<and> (status (main host argc (Some f) open_out hdr0 buf0) = EXIT_SUCCESS
          \<longrightarrow> field (data f) 0 2 = EFI_PE_MSDOS_MAGIC \<and> field (data f) 4 4 = ZIMG_MAGIC
              \<and> field (data f) 56 4 = EFI_PE_LINUX_MAGIC)
       \<and> (field (data f) 0 2 = EFI_PE_MSDOS_MAGIC \<and> field (data f) 4 4 = ZIMG_MAGIC
            \<and> field (data f) 56 4 = EFI_PE_LINUX_MAGIC
            \<and> i \<in> {0, 1, 4, 5, 6, 7, 56, 57, 58, 59} \<and> b \<noteq> data f ! i
          \<longrightarrow> status (main host argc (Some (f\<lparr>data := (data f)[i := b]\<rparr>)) open_out hdr0 buf0)
                = EXIT_FAILURE
              \<and> stderr (main host argc (Some (f\<lparr>data := (data f)[i := b]\<rparr>)) open_out hdr0 buf0)
                  = [Error_not_a_kernel_EFI_image])"
proof (intro conjI impI)
  assume bad: "field (data f) 0 2 \<noteq> EFI_PE_MSDOS_MAGIC \<or> field (data f) 4 4 \<noteq> ZIMG_MAGIC
            \<or> field (data f) 56 4 \<noteq> EFI_PE_LINUX_MAGIC"
  note eq = main_bad_magic [OF assms bad, of host hdr0 buf0]
  show "status (main host argc (Some f) open_out hdr0 buf0) = EXIT_FAILURE"
    "stderr (main host argc (Some f) open_out hdr0 buf0) = [Error_not_a_kernel_EFI_image]"
    "stdout (main host argc (Some f) open_out hdr0 buf0) = []"
    "fout_end (main host argc (Some f) open_out hdr0 buf0) = (if 2 < argc then open_out else None)"
    by (simp_all add: eq)
next
  assume "status (main host argc (Some f) open_out hdr0 buf0) = EXIT_SUCCESS"
  then have good: "field (data f) 0 2 = EFI_PE_MSDOS_MAGIC \<and> field (data f) 4 4 = ZIMG_MAGIC
      \<and> field (data f) 56 4 = EFI_PE_LINUX_MAGIC"
    unfolding main_status [OF assms(1-3)]
    by (simp add: EXIT_SUCCESS_def EXIT_FAILURE_def split: if_splits)
  then show "field (data f) 0 2 = EFI_PE_MSDOS_MAGIC" "field (data f) 4 4 = ZIMG_MAGIC"
    "field (data f) 56 4 = EFI_PE_LINUX_MAGIC"
    by simp_all
next
  let ?f' = "f\<lparr>data := (data f)[i := b]\<rparr>"
  assume alt: "field (data f) 0 2 = EFI_PE_MSDOS_MAGIC \<and> field (data f) 4 4 = ZIMG_MAGIC
      \<and> field (data f) 56 4 = EFI_PE_LINUX_MAGIC
      \<and> i \<in> {0, 1, 4, 5, 6, 7, 56, 57, 58, 59} \<and> b \<noteq> data f ! i"
  then have b: "b \<noteq> data f ! i" by simp
  have len: "64 \<le> length (data f)"
    using assms(4) by (simp add: sizeof_header_def)
  from alt have "(0 \<le> i \<and> i < 0 + 2) \<or> (4 \<le> i \<and> i < 4 + 4) \<or> (56 \<le> i \<and> i < 56 + 4)"
    by auto
  then have "field ((data f)[i := b]) 0 2 \<noteq> field (data f) 0 2
      \<or> field ((data f)[i := b]) 4 4 \<noteq> field (data f) 4 4
      \<or> field ((data f)[i := b]) 56 4 \<noteq> field (data f) 56 4"
    using field_altered [of 0 i 2 "data f" b] field_altered [of 4 i 4 "data f" b]
      field_altered [of 56 i 4 "data f" b] b len
    by fastforce
  with alt have bad: "field (data ?f') 0 2 \<noteq> EFI_PE_MSDOS_MAGIC
      \<or> field (data ?f') 4 4 \<noteq> ZIMG_MAGIC \<or> field (data ?f') 56 4 \<noteq> EFI_PE_LINUX_MAGIC"
    by auto
  have p: "pos ?f' = 0" and l: "sizeof_header \<le> length (data ?f')"
    using assms(3,4) by simp_all
  note eq = main_bad_magic [OF assms(1,2) p l bad, of host hdr0 buf0]
  show "status (main host argc (Some ?f') open_out hdr0 buf0) = EXIT_FAILURE"
    "stderr (main host argc (Some ?f') open_out hdr0 buf0) = [Error_not_a_kernel_EFI_image]"
    by (simp_all add: eq)
qed

theorem main_rejects_bad_magic_witness:
  "status (main LittleEndian 2 (Some (regular_file mx_image)) None [] []) = EXIT_FAILURE
   \<and> stderr (main LittleEndian 2 (Some (regular_file mx_image)) None [] [])
       = [Error_not_a_kernel_EFI_image]
   \<and> status (main LittleEndian 2 (Some (regular_file sample_image)) None [] []) = EXIT_SUCCESS
   \<and> field sample_image 0 2 = EFI_PE_MSDOS_MAGIC \<and> field sample_image 4 4 = ZIMG_MAGIC
   \<and> field sample_image 56 4 = EFI_PE_LINUX_MAGIC
   \<and> status (main BigEndian 3 (Some (regular_file (sample_image[57 := 0x24])))
               (Some (new_output 100)) [] [])
       = EXIT_FAILURE
   \<and> stderr (main BigEndian 3 (Some (regular_file (sample_image[57 := 0x24])))
               (Some (new_output 100)) [] [])
       = [Error_not_a_kernel_EFI_image]"
proof -
  have mx: "pos (regular_file mx_image) = 0"
    "sizeof_header \<le> length (data (regular_file mx_image))"
    "field (data (regular_file mx_image)) 0 2 \<noteq> EFI_PE_MSDOS_MAGIC"
    by (simp_all add: regular_file_def sample_fields sizeof_header_def)
  have ok: "pos (regular_file sample_image) = 0"
    "sizeof_header \<le> length (data (regular_file sample_image))"
    "field (data (regular_file sample_image)) 0 2 = EFI_PE_MSDOS_MAGIC"
    "field (data (regular_file sample_image)) 4 4 = ZIMG_MAGIC"
    "field (data (regular_file sample_image)) 56 4 = EFI_PE_LINUX_MAGIC"
    "data (regular_file sample_image) ! 57 = 0x23"
    "regular_file sample_image\<lparr>data := (data (regular_file sample_image))[57 := 0x24]\<rparr>
       = regular_file (sample_image[57 := 0x24])"
    by (simp_all add: regular_file_def sample_fields sizeof_header_def)
      (simp add: sample_image_def sample_header_def)
  from main_rejects_bad_magic [where argc = 2 and open_out = None
      and f = "regular_file mx_image" and host = LittleEndian
      and ?hdr0.0 = "[]" and ?buf0.0 = "[]", OF _ _ mx(1,2)] mx(3)
  have "status (main LittleEndian 2 (Some (regular_file mx_image)) None [] []) = EXIT_FAILURE
   \<and> stderr (main LittleEndian 2 (Some (regular_file mx_image)) None [] [])
       = [Error_not_a_kernel_EFI_image]"
    by simp
  moreover
  have st: "status (main LittleEndian 2 (Some (regular_file sample_image)) None [] [])
              = EXIT_SUCCESS"
    using main_status [OF _ _ ok(1), of 2 None LittleEndian "[]" "[]"] ok(2-5) by simp
  from main_rejects_bad_magic [where argc = 2 and open_out = None
      and f = "regular_file sample_image" and host = LittleEndian
      and ?hdr0.0 = "[]" and ?buf0.0 = "[]", OF _ _ ok(1,2)] st
  have "status (main LittleEndian 2 (Some (regular_file sample_image)) None [] []) = EXIT_SUCCESS
   \<and> field sample_image 0 2 = EFI_PE_MSDOS_MAGIC \<and> field sample_image 4 4 = ZIMG_MAGIC
   \<and> field sample_image 56 4 = EFI_PE_LINUX_MAGIC"
    by (simp add: regular_file_def)
  moreover
  from main_rejects_bad_magic [where argc = 3 and open_out = "Some (new_output 100)"
      and f = "regular_file sample_image" and i = 57 and b = "0x24" and host = BigEndian
      and ?hdr0.0 = "[]" and ?buf0.0 = "[]", OF _ _ ok(1,2)] ok(3-7)
  have "status (main BigEndian 3 (Some (regular_file (sample_image[57 := 0x24])))
               (Some (new_output 100)) [] [])
       = EXIT_FAILURE
   \<and> stderr (main BigEndian 3 (Some (regular_file (sample_image[57 := 0x24])))
               (Some (new_output 100)) [] [])
       = [Error_not_a_kernel_EFI_image]"
    by simp
  ultimately show ?thesis by simp
qed

text \<open>
  Claim C3, as stated, gives the header 60 bytes. The struct has 64 (the sum
  2+2+4+4+4+8+32+4+4), and the program reads 64: on the sample image the position after
  the run is 64, and the first 60 bytes of that image, which hold every field but the last,
  are refused as a truncated header.
\<close>

theorem header_size_counterexample:
  "sizeof_header = 64
   \<and> fin_end (main LittleEndian 2 (Some (regular_file sample_image)) None [] [])
       = Some \<lparr>data = sample_image, pos = 64, seekable = True, rlog = [64], closed = True\<rparr>
   \<and> status (main LittleEndian 2 (Some (regular_file sample_image)) None [] []) = EXIT_SUCCESS
   \<and> length (take 60 sample_image) = 60
   \<and> status (main LittleEndian 2 (Some (regular_file (take 60 sample_image))) None [] [])
       = EXIT_FAILURE
   \<and> stderr (main LittleEndian 2 (Some (regular_file (take 60 sample_image))) None [] [])
       = [Error_reading_EFI_zboot_header]"
proof -
  have ok: "pos (regular_file sample_image) = 0"
    "sizeof_header \<le> length (data (regular_file sample_image))"
    "field (data (regular_file sample_image)) 0 2 = EFI_PE_MSDOS_MAGIC"
    "field (data (regular_file sample_image)) 4 4 = ZIMG_MAGIC"
    "field (data (regular_file sample_image)) 56 4 = EFI_PE_LINUX_MAGIC"
    by (simp_all add: regular_file_def sample_fields sizeof_header_def)
  have cut: "pos (regular_file (take 60 sample_image)) = 0"
    "length (data (regular_file (take 60 sample_image))) < sizeof_header"
    by (simp_all add: regular_file_def sample_fields sizeof_header_def)
  have "main LittleEndian 2 (Some (regular_file sample_image)) None [] [] =
          \<lparr>status = EXIT_SUCCESS,
           fin_end = Some \<lparr>data = sample_image, pos = 64, seekable = True, rlog = [64],
                           closed = True\<rparr>,
           fout_end = None, stderr = [],
           stdout = [\<lparr>compression = [0x67, 0x7A, 0x69, 0x70], shown_offset = 64,
                      shown_size = 4\<rparr>]\<rparr>"
    using main_good_magic [OF _ _ ok, of 2 None LittleEndian "[]" "[]"]
    by (simp add: regular_file_def sample_payload sizeof_header_def fclose_def)
  moreover have "status (main LittleEndian 2 (Some (regular_file (take 60 sample_image))) None [] [])
       = EXIT_FAILURE
   \<and> stderr (main LittleEndian 2 (Some (regular_file (take 60 sample_image))) None [] [])
       = [Error_reading_EFI_zboot_header]"
    using main_truncated [OF _ _ cut, of 2 None LittleEndian "[]" "[]"] by simp
  ultimately show ?thesis
    by (simp add: sizeof_header_def sample_fields)
qed

text \<open>
  Claim C3, amended. The header has 64 bytes. A run that reaches the header read, with
  the input at position 0, asks for exactly 64 bytes in its first read. When the input
  holds fewer than 64 bytes the program fails with the message that the header could not
  be read and prints no report. When it holds at least 64 and no output was named, the
  position at the end of the run is 64.
\<close>

theorem main_reads_whole_header:
  assumes "2 \<le> argc" "2 < argc \<longrightarrow> open_out \<noteq> None" "pos f = 0"
  shows "sizeof_header = 64
       \<and> (\<exists>f' rest. fin_end (main host argc (Some f) open_out hdr0 buf0) = Some f'
              \<and> rlog f' = rlog f @ sizeof_header # rest)
       \<and> (length (data f) < sizeof_header
          \<longrightarrow> status (main host argc (Some f) open_out hdr0 buf0) = EXIT_FAILURE
              \<and> stderr (main host argc (Some f) open_out hdr0 buf0)
                  = [Error_reading_EFI_zboot_header]
              \<and> stdout (main host argc (Some f) open_out hdr0 buf0) = [])
       \<and> (sizeof_header \<le> length (data f) \<and> argc = 2
          \<longrightarrow> (\<exists>f'. fin_end (main host argc (Some f) open_out hdr0 buf0) = Some f'
                \<and> pos f' = sizeof_header))"
proof (intro conjI impI)
  show "sizeof_header = 64" by (simp add: sizeof_header_def)
next
  show "\<exists>f' rest. fin_end (main host argc (Some f) open_out hdr0 buf0) = Some f'
          \<and> rlog f' = rlog f @ sizeof_header # rest"
  proof (cases "sizeof_header \<le> length (data f)")
    case False
    then have "length (data f) < sizeof_header" by simp
    from main_truncated [OF assms this, of host hdr0 buf0] show ?thesis
      by (simp add: fclose_def)
  next
    case True
    show ?thesis
    proof (cases "field (data f) 0 2 = EFI_PE_MSDOS_MAGIC \<and> field (data f) 4 4 = ZIMG_MAGIC
               \<and> field (data f) 56 4 = EFI_PE_LINUX_MAGIC")
      case False
      then have "field (data f) 0 2 \<noteq> EFI_PE_MSDOS_MAGIC \<or> field (data f) 4 4 \<noteq> ZIMG_MAGIC
         \<or> field (data f) 56 4 \<noteq> EFI_PE_LINUX_MAGIC" by blast
      from main_bad_magic [OF assms True this, of host hdr0 buf0] show ?thesis
        by simp
    next
      case good: True
      let ?f1 = "f\<lparr>pos := sizeof_header, rlog := rlog f @ [sizeof_header]\<rparr>"
      let ?r = "copy_data buf0 ?f1 (the open_out) (uint (load_le32 (field (data f) 8 4)))
                  (unat (load_le32 (field (data f) 12 4)))"
      from copy_data_rlog [of buf0 ?f1 "the open_out" "uint (load_le32 (field (data f) 8 4))"
          "unat (load_le32 (field (data f) 12 4))"]
      obtain rest where rest: "rlog (src ?r) = rlog ?f1 @ rest" by blast
      show ?thesis
        using main_good_magic [OF assms True, of host hdr0 buf0] good rest
        by (cases "2 < argc") (simp_all add: Let_def fclose_def)
    qed
  qed
next
  assume "length (data f) < sizeof_header"
  note eq = main_truncated [OF assms this, of host hdr0 buf0]
  show "status (main host argc (Some f) open_out hdr0 buf0) = EXIT_FAILURE"
    "stderr (main host argc (Some f) open_out hdr0 buf0) = [Error_reading_EFI_zboot_header]"
    "stdout (main host argc (Some f) open_out hdr0 buf0) = []"
    by (simp_all add: eq)
next
  assume a: "sizeof_header \<le> length (data f) \<and> argc = 2"
  then have whole: "sizeof_header \<le> length (data f)" and two: "argc = 2" by simp_all
  show "\<exists>f'. fin_end (main host argc (Some f) open_out hdr0 buf0) = Some f'
          \<and> pos f' = sizeof_header"
  proof (cases "field (data f) 0 2 = EFI_PE_MSDOS_MAGIC \<and> field (data f) 4 4 = ZIMG_MAGIC
               \<and> field (data f) 56 4 = EFI_PE_LINUX_MAGIC")
    case False
    then have "field (data f) 0 2 \<noteq> EFI_PE_MSDOS_MAGIC \<or> field (data f) 4 4 \<noteq> ZIMG_MAGIC
       \<or> field (data f) 56 4 \<noteq> EFI_PE_LINUX_MAGIC" by blast
    from main_bad_magic [OF assms whole this, of host hdr0 buf0] show ?thesis
      by simp
  next
    case True
    with main_good_magic [OF assms whole, of host hdr0 buf0] two show ?thesis
      by (simp add: Let_def fclose_def)
  qed
qed

theorem main_reads_whole_header_witness:
  "status (main LittleEndian 2 (Some (regular_file (take 63 sample_image))) None [] [])
     = EXIT_FAILURE
   \<and> stderr (main LittleEndian 2 (Some (regular_file (take 63 sample_image))) None [] [])
     = [Error_reading_EFI_zboot_header]
   \<and> (\<exists>f'. fin_end (main LittleEndian 2 (Some (regular_file sample_image)) None [] [])
              = Some f' \<and> pos f' = 64)"
proof -
  have cut: "pos (regular_file (take 63 sample_image)) = 0"
    "length (data (regular_file (take 63 sample_image))) < sizeof_header"
    by (simp_all add: regular_file_def sample_fields sizeof_header_def)
  have ok: "pos (regular_file sample_image) = 0"
    "sizeof_header \<le> length (data (regular_file sample_image))"
    by (simp_all add: regular_file_def sample_fields sizeof_header_def)
  from main_reads_whole_header [where argc = 2 and open_out = None
      and f = "regular_file (take 63 sample_image)" and host = LittleEndian
      and ?hdr0.0 = "[]" and ?buf0.0 = "[]", OF _ _ cut(1)] cut(2)
  have "status (main LittleEndian 2 (Some (regular_file (take 63 sample_image))) None [] [])
     = EXIT_FAILURE
   \<and> stderr (main LittleEndian 2 (Some (regular_file (take 63 sample_image))) None [] [])
     = [Error_reading_EFI_zboot_header]"
    by simp
  moreover
  from main_reads_whole_header [where argc = 2 and open_out = None
      and f = "regular_file sample_image" and host = LittleEndian
      and ?hdr0.0 = "[]" and ?buf0.0 = "[]", OF _ _ ok(1)] ok(2)
  have "\<exists>f'. fin_end (main LittleEndian 2 (Some (regular_file sample_image)) None [] [])
              = Some f' \<and> pos f' = 64"
    by simp
  ultimately show ?thesis by simp
qed

subsection \<open>The exit status and the streams at the end of a run\<close>

text \<open>
  Claim C6 fails on the code: \<^verbatim>\<open>copy_data\<close> returns \<^verbatim>\<open>void\<close> and
  \<^verbatim>\<open>main\<close> returns \<^verbatim>\<open>EXIT_SUCCESS\<close> after it whatever happened. On an image cut
  inside its payload the copy prints the read error; on an image with a payload of one
  whole chunk and an output device that is full it prints the write error; on a pipe it
  prints the seek error; and each time the exit status is \<^verbatim>\<open>EXIT_SUCCESS\<close>.
\<close>

theorem main_ignores_copy_failure:
  "status (main LittleEndian 3 (Some (regular_file cut_image)) (Some (new_output 100)) [] [])
     = EXIT_SUCCESS
   \<and> stderr (main LittleEndian 3 (Some (regular_file cut_image)) (Some (new_output 100)) [] [])
     = [Error_reading_data]
   \<and> status (main LittleEndian 3 (Some (regular_file chunk_image)) (Some (new_output 0)) [] [])
     = EXIT_SUCCESS
   \<and> stderr (main LittleEndian 3 (Some (regular_file chunk_image)) (Some (new_output 0)) [] [])
     = [Error_writing_data]
   \<and> status (main LittleEndian 3 (Some (pipe_input sample_image)) (Some (new_output 100)) [] [])
     = EXIT_SUCCESS
   \<and> stderr (main LittleEndian 3 (Some (pipe_input sample_image)) (Some (new_output 100)) [] [])
     = [Error_seeking_data]"
proof -
  have cut: "pos (regular_file cut_image) = 0"
    "sizeof_header \<le> length (data (regular_file cut_image))"
    "field (data (regular_file cut_image)) 0 2 = EFI_PE_MSDOS_MAGIC"
    "field (data (regular_file cut_image)) 4 4 = ZIMG_MAGIC"
    "field (data (regular_file cut_image)) 56 4 = EFI_PE_LINUX_MAGIC"
    by (simp_all add: regular_file_def sample_fields sizeof_header_def)
  have chunk: "pos (regular_file chunk_image) = 0"
    "sizeof_header \<le> length (data (regular_file chunk_image))"
    "field (data (regular_file chunk_image)) 0 2 = EFI_PE_MSDOS_MAGIC"
    "field (data (regular_file chunk_image)) 4 4 = ZIMG_MAGIC"
    "field (data (regular_file chunk_image)) 56 4 = EFI_PE_LINUX_MAGIC"
    by (simp_all add: regular_file_def chunk_fields sizeof_header_def)
  have pipe: "pos (pipe_input sample_image) = 0"
    "sizeof_header \<le> length (data (pipe_input sample_image))"
    "field (data (pipe_input sample_image)) 0 2 = EFI_PE_MSDOS_MAGIC"
    "field (data (pipe_input sample_image)) 4 4 = ZIMG_MAGIC"
    "field (data (pipe_input sample_image)) 56 4 = EFI_PE_LINUX_MAGIC"
    by (simp_all add: pipe_input_def sample_fields sizeof_header_def)
  have "status (main LittleEndian 3 (Some (regular_file cut_image)) (Some (new_output 100)) [] [])
     = EXIT_SUCCESS
   \<and> stderr (main LittleEndian 3 (Some (regular_file cut_image)) (Some (new_output 100)) [] [])
     = [Error_reading_data]"
    using main_good_magic [OF _ _ cut, of 3 "Some (new_output 100)" LittleEndian "[]" "[]"]
    by (simp add: Let_def regular_file_def new_output_def sample_payload sample_fields
        sizeof_header_def sizeof_buf_def copy_data_def fseek_def copy_loop_short)
  moreover
  have "status (main LittleEndian 3 (Some (regular_file chunk_image)) (Some (new_output 0)) [] [])
     = EXIT_SUCCESS
   \<and> stderr (main LittleEndian 3 (Some (regular_file chunk_image)) (Some (new_output 0)) [] [])
     = [Error_writing_data]"
    using main_good_magic [OF _ _ chunk, of 3 "Some (new_output 0)" LittleEndian "[]" "[]"]
    by (simp add: Let_def regular_file_def new_output_def sends_blocks_def chunk_fields
        sizeof_header_def sizeof_buf_def copy_data_def fseek_def copy_loop_unfold
        fread_def fwrite_def)
  moreover
  have "status (main LittleEndian 3 (Some (pipe_input sample_image)) (Some (new_output 100)) [] [])
     = EXIT_SUCCESS
   \<and> stderr (main LittleEndian 3 (Some (pipe_input sample_image)) (Some (new_output 100)) [] [])
     = [Error_seeking_data]"
    using main_good_magic [OF _ _ pipe, of 3 "Some (new_output 100)" LittleEndian "[]" "[]"]
    by (simp add: Let_def pipe_input_def sample_payload copy_data_def fseek_def)
  ultimately show ?thesis by simp
qed

text \<open>
  Claim C8 fails on the code: the path for a magic mismatch returns without
  \<^verbatim>\<open>fclose(fin)\<close>, while the path for a truncated header, just before it, closes the
  input. On the image with \<^verbatim>\<open>MX\<close> the program fails with the input stream still
  open; on the same image cut to 10 bytes it fails with the input stream closed.
\<close>

theorem main_leaves_input_open:
  "main LittleEndian 2 (Some (regular_file mx_image)) None [] [] =
     \<lparr>status = EXIT_FAILURE,
      fin_end = Some \<lparr>data = mx_image, pos = 64, seekable = True, rlog = [64],
                      closed = False\<rparr>,
      fout_end = None, stderr = [Error_not_a_kernel_EFI_image], stdout = []\<rparr>
   \<and> main LittleEndian 2 (Some (regular_file (take 10 mx_image))) None [] [] =
     \<lparr>status = EXIT_FAILURE,
      fin_end = Some \<lparr>data = take 10 mx_image, pos = 10, seekable = True, rlog = [64],
                      closed = True\<rparr>,
      fout_end = None, stderr = [Error_reading_EFI_zboot_header], stdout = []\<rparr>"
proof -
  have mx: "pos (regular_file mx_image) = 0"
    "sizeof_header \<le> length (data (regular_file mx_image))"
    "field (data (regular_file mx_image)) 0 2 \<noteq> EFI_PE_MSDOS_MAGIC
      \<or> field (data (regular_file mx_image)) 4 4 \<noteq> ZIMG_MAGIC
      \<or> field (data (regular_file mx_image)) 56 4 \<noteq> EFI_PE_LINUX_MAGIC"
    by (simp_all add: regular_file_def sample_fields sizeof_header_def)
  have cut: "pos (regular_file (take 10 mx_image)) = 0"
    "length (data (regular_file (take 10 mx_image))) < sizeof_header"
    by (simp_all add: regular_file_def sample_fields sizeof_header_def)
  show ?thesis
    using main_bad_magic [OF _ _ mx, of 2 None LittleEndian "[]" "[]"]
      main_truncated [OF _ _ cut, of 2 None LittleEndian "[]" "[]"]
    by (simp add: regular_file_def sizeof_header_def fclose_def sample_fields)
qed

end
